theory Spec2Isabelle
  imports Complex_Main "HOL-Library.Word"
begin

section \<open>JavaScript strings\<close>

text \<open>
  The code under study is TypeScript. A JavaScript string is a sequence of 16-bit code
  units, so \<open>js_string\<close> is a list of 16-bit words. \<open>js\<close> turns an ASCII literal of
  the source into its code units. The line feed \<open>\n\<close> of the source is the code unit
  \<open>0x0A\<close>.
\<close>

type_synonym code_unit = "16 word"
type_synonym js_string = "code_unit list"

definition js :: "string \<Rightarrow> js_string" where
  "js s = map of_char s"

text \<open>
  \<open>String.prototype.trim\<close> removes white space and line terminators from both ends:
  TAB, LF, VT, FF, CR, SPACE, NBSP, the Unicode space separators and BOM.
\<close>

definition isWhiteSpace :: "code_unit \<Rightarrow> bool" where
  "isWhiteSpace c \<longleftrightarrow>
     c = 0x09 \<or> c = 0x0A \<or> c = 0x0B \<or> c = 0x0C \<or> c = 0x0D \<or> c = 0x20 \<or> c = 0xA0 \<or>
     c = 0x1680 \<or> (0x2000 \<le> c \<and> c \<le> 0x200A) \<or> c = 0x2028 \<or> c = 0x2029 \<or>
     c = 0x202F \<or> c = 0x205F \<or> c = 0x3000 \<or> c = 0xFEFF"

definition trim :: "js_string \<Rightarrow> js_string" where
  "trim s = rev (dropWhile isWhiteSpace (rev (dropWhile isWhiteSpace s)))"

text \<open>
  \<open>s.split(d)\<close> for a one-unit separator: the pieces between the separators, so that
  the empty string gives one empty piece and a trailing separator gives a last empty piece.
  \<open>xs.join(sep)\<close> puts the separator between the pieces.
\<close>

fun split_js :: "code_unit \<Rightarrow> js_string \<Rightarrow> js_string list" where
  "split_js d [] = [[]]"
| "split_js d (c # cs) =
     (if c = d then [] # split_js d cs
      else (case split_js d cs of l # ls \<Rightarrow> (c # l) # ls | [] \<Rightarrow> [[c]]))"

fun join_js :: "js_string \<Rightarrow> js_string list \<Rightarrow> js_string" where
  "join_js sep [] = []"
| "join_js sep [l] = l"
| "join_js sep (l # m # ls) = l @ sep @ join_js sep (m # ls)"

text \<open>\<open>s.includes(needle)\<close>: the needle occurs at some position.\<close>

definition includes_js :: "js_string \<Rightarrow> js_string \<Rightarrow> bool" where
  "includes_js s needle =
     list_ex (\<lambda>i. take (length needle) (drop i s) = needle) [0..<Suc (length s)]"

section \<open>The regular expression \<open>/\breturn\b/\<close>\<close>

text \<open>
  The expression has no flags, so \<open>\w\<close> is \<open>[A-Za-z0-9_]\<close> on code units and \<open>\b\<close>
  holds at position \<open>e\<close> when exactly one of the units before and at \<open>e\<close> is a word
  character (a position outside the string counts as no word character). \<open>test\<close>
  succeeds when the pattern matches at some start position.
\<close>

definition isWordChar :: "code_unit \<Rightarrow> bool" where
  "isWordChar c \<longleftrightarrow>
     (0x61 \<le> c \<and> c \<le> 0x7A) \<or> (0x41 \<le> c \<and> c \<le> 0x5A) \<or> (0x30 \<le> c \<and> c \<le> 0x39) \<or> c = 0x5F"

definition word_boundary :: "js_string \<Rightarrow> nat \<Rightarrow> bool" where
  "word_boundary s e =
     (let a = (0 < e \<and> e - 1 < length s \<and> isWordChar (s ! (e - 1)));
          b = (e < length s \<and> isWordChar (s ! e))
      in a \<noteq> b)"

definition return_match_at :: "js_string \<Rightarrow> nat \<Rightarrow> bool" where
  "return_match_at s i \<longleftrightarrow>
     word_boundary s i \<and> take 6 (drop i s) = js ''return'' \<and> word_boundary s (i + 6)"

definition return_regex_test :: "js_string \<Rightarrow> bool" where
  "return_regex_test s = list_ex (return_match_at s) [0..<Suc (length s)]"

text \<open>
  The same property in words: the text has an occurrence of \<open>return\<close> that is neither
  preceded nor followed by a word character.
\<close>

definition return_token_in :: "js_string \<Rightarrow> bool" where
  "return_token_in s \<longleftrightarrow>
     (\<exists>pre post. s = pre @ js ''return'' @ post \<and>
        (pre = [] \<or> \<not> isWordChar (last pre)) \<and> (post = [] \<or> \<not> isWordChar (hd post)))"

text \<open>
  An occurrence of \<open>return\<close> at position \<open>i\<close> lies inside a longer run of word
  characters when a word character (\<open>[A-Za-z0-9_]\<close>) comes directly before or directly
  after it.
\<close>

definition return_inside_identifier :: "js_string \<Rightarrow> nat \<Rightarrow> bool" where
  "return_inside_identifier s i \<longleftrightarrow>
     (0 < i \<and> isWordChar (s ! (i - 1))) \<or> (i + 6 < length s \<and> isWordChar (s ! (i + 6)))"

definition return_only_inside_identifiers :: "js_string \<Rightarrow> bool" where
  "return_only_inside_identifiers s =
     list_all (\<lambda>i. take 6 (drop i s) = js ''return'' \<longrightarrow> return_inside_identifier s i)
       [0..<length s]"

section \<open>The code preparer\<close>

datatype ExecutionMode = Script | Function

definition wrapCodeInMainFunction :: "js_string \<Rightarrow> js_string" where
  "wrapCodeInMainFunction userCode =
     (let trimmedCode = trim userCode in
      if trimmedCode = [] then js ''def main():\<newline>    pass\<newline>''
      else
        let lines = split_js 0x0A trimmedCode;
            indentedLines = join_js [0x0A] (map (\<lambda>line. js ''    '' @ line) lines)
        in js ''def main():\<newline>'' @ indentedLines @ js ''\<newline>'')"

definition prepareCodeForExecution :: "js_string \<Rightarrow> ExecutionMode \<Rightarrow> js_string" where
  "prepareCodeForExecution userCode mode =
     (let hasReturnStatement = return_regex_test (trim userCode) in
      if mode = Script then
        (if hasReturnStatement then wrapCodeInMainFunction userCode else userCode)
      else wrapCodeInMainFunction userCode)"

text \<open>
  The repository holds a second, earlier copy of the editor page. Its preparer has no
  scan for \<open>return\<close>.
\<close>

definition prepareCodeForExecution_001 :: "js_string \<Rightarrow> ExecutionMode \<Rightarrow> js_string" where
  "prepareCodeForExecution_001 userCode mode =
     (if mode = Script then userCode else wrapCodeInMainFunction userCode)"

section \<open>Responses and result values\<close>

text \<open>
  A \<open>JsonValue\<close> as \<open>JSON.parse\<close> delivers it. An object is the list of its own
  properties in enumeration order, with distinct keys. The page does two things with a
  number of a result: it prints it and it uses it as a property name, and both go through
  the text that \<open>Number.prototype.toString\<close> gives for it (\<open>15\<close>, \<open>0.5\<close>,
  \<open>1e+21\<close>). A number is therefore kept as that text.
\<close>

datatype json =
    JNull
  | JBool bool
  | JNum js_string
  | JStr js_string
  | JArr "json list"
  | JObj "(js_string \<times> json) list"

type_synonym json_object = "(js_string \<times> json) list"

record Visualization =
  viz_type :: js_string
  viz_format :: js_string
  viz_data :: js_string
  viz_figure_number :: "rat option"

text \<open>
  \<open>None\<close> stands for an absent optional field. The \<open>performance\<close> field of a
  response feeds the metrics strip only, which is a separate block of the page and is
  left out here.
\<close>

record ApiResponse =
  stdout :: js_string
  result :: "json option"
  error :: "js_string option"
  visualizations :: "Visualization list option"

section \<open>Reading properties\<close>

text \<open>
  The value of a property read \<open>x[key]\<close> on a JSON value is \<open>undefined\<close>, a JSON value,
  or something inherited from a built-in prototype. A plain object inherits the members of
  \<open>Object.prototype\<close>, which are named below; all are functions, except \<open>__proto__\<close>,
  which yields \<open>Object.prototype\<close> itself. For an array, a string, a number or a boolean,
  a name that is not an own property is looked up in the prototype of that kind; which
  names that prototype has depends on the engine, so the result is kept as the lookup
  (\<open>PrototypeLookup\<close>: a built-in member, or \<open>undefined\<close> when there is none by that
  name). No built-in has a name made of digits only, so such a name gives \<open>undefined\<close>.
\<close>

datatype prototype = ArrayPrototype | StringPrototype | NumberPrototype | BooleanPrototype

datatype js_value =
    Undefined
  | Value json
  | ObjectPrototypeMember js_string
  | PrototypeLookup prototype js_string

text \<open>The decimal text of a natural number, as an array index or a length prints.\<close>

fun decimal :: "nat \<Rightarrow> js_string" where
  "decimal n =
     (if n < 10 then [of_nat (48 + n)] else decimal (n div 10) @ [of_nat (48 + n mod 10)])"

declare decimal.simps [simp del]

definition index_of_key :: "js_string \<Rightarrow> nat \<Rightarrow> nat option" where
  "index_of_key key n = find (\<lambda>i. decimal i = key) [0..<n]"

definition object_prototype_keys :: "js_string list" where
  "object_prototype_keys =
     map js [''constructor'', ''hasOwnProperty'', ''isPrototypeOf'', ''propertyIsEnumerable'',
             ''toLocaleString'', ''toString'', ''valueOf'', ''__defineGetter__'',
             ''__defineSetter__'', ''__lookupGetter__'', ''__lookupSetter__'', ''__proto__'']"

definition object_property :: "json_object \<Rightarrow> js_string \<Rightarrow> js_value" where
  "object_property obj key =
     (case map_of obj key of
        Some v \<Rightarrow> Value v
      | None \<Rightarrow> if key \<in> set object_prototype_keys then ObjectPrototypeMember key else Undefined)"

definition is_digit :: "code_unit \<Rightarrow> bool" where
  "is_digit c \<longleftrightarrow> 0x30 \<le> c \<and> c \<le> 0x39"

definition builtin_lookup :: "prototype \<Rightarrow> js_string \<Rightarrow> js_value" where
  "builtin_lookup p key =
     (if key \<noteq> [] \<and> list_all is_digit key then Undefined else PrototypeLookup p key)"

text \<open>
  \<open>x[key]\<close> for a JSON value \<open>x\<close>: reading a property of \<open>null\<close> throws
  (\<open>None\<close>). An array and a string have their indices and \<open>length\<close> as own
  properties.
\<close>

fun get_property :: "json \<Rightarrow> js_string \<Rightarrow> js_value option" where
  "get_property JNull key = None"
| "get_property (JObj obj) key = Some (object_property obj key)"
| "get_property (JArr vs) key =
     Some (case index_of_key key (length vs) of
             Some i \<Rightarrow> Value (vs ! i)
           | None \<Rightarrow> if key = js ''length'' then Value (JNum (decimal (length vs)))
                     else builtin_lookup ArrayPrototype key)"
| "get_property (JStr s) key =
     Some (case index_of_key key (length s) of
             Some i \<Rightarrow> Value (JStr [s ! i])
           | None \<Rightarrow> if key = js ''length'' then Value (JNum (decimal (length s)))
                     else builtin_lookup StringPrototype key)"
| "get_property (JNum _) key = Some (builtin_lookup NumberPrototype key)"
| "get_property (JBool _) key = Some (builtin_lookup BooleanPrototype key)"

text \<open>
  \<open>obj.name[key]\<close> for a field \<open>name\<close> of a tagged result: it throws when the field
  is absent (\<open>undefined\<close>) or \<open>null\<close>.
\<close>

definition field_property :: "json_object \<Rightarrow> string \<Rightarrow> js_string \<Rightarrow> js_value option" where
  "field_property obj name key =
     (case map_of obj (js name) of None \<Rightarrow> None | Some v \<Rightarrow> get_property v key)"

section \<open>Conversions\<close>

text \<open>
  \<open>ToString\<close> of a JSON value, as \<open>String(v)\<close>, a template literal, a computed property
  name and the string conversion of an attribute perform it. An array joins the texts of
  its elements with commas, \<open>null\<close> counting as the empty text. A plain object gives
  \<open>[object Object]\<close> through the inherited \<open>toString\<close>; when it has an own property
  \<open>toString\<close>, that property is not callable, the inherited \<open>valueOf\<close> returns the
  object itself, and the conversion throws a \<open>TypeError\<close> (\<open>None\<close>).
\<close>

fun to_string :: "json \<Rightarrow> js_string option" where
  "to_string JNull = Some (js ''null'')"
| "to_string (JBool b) = Some (if b then js ''true'' else js ''false'')"
| "to_string (JNum t) = Some t"
| "to_string (JStr s) = Some s"
| "to_string (JArr vs) =
     map_option (join_js (js '',''))
       (those (map (\<lambda>v. if v = JNull then Some [] else to_string v) vs))"
| "to_string (JObj obj) =
     (case map_of obj (js ''toString'') of
        Some _ \<Rightarrow> None
      | None \<Rightarrow> Some (js ''[object Object]''))"

text \<open>Truthiness of a JSON value.\<close>

fun truthy :: "json \<Rightarrow> bool" where
  "truthy JNull = False"
| "truthy (JBool b) = b"
| "truthy (JNum t) = (t \<noteq> js ''0'')"
| "truthy (JStr s) = (s \<noteq> [])"
| "truthy _ = True"

text \<open>
  What React accepts as a child: text, numbers, booleans, \<open>null\<close>, \<open>undefined\<close> and
  arrays of such; a function is skipped. A plain object is rejected with an exception. The
  prototype objects that \<open>__proto__\<close> can yield are rejected too, except
  \<open>Array.prototype\<close> (an array) and \<open>String.prototype\<close> (iterable).
\<close>

fun valid_child_json :: "json \<Rightarrow> bool" where
  "valid_child_json (JObj _) = False"
| "valid_child_json (JArr vs) = list_all valid_child_json vs"
| "valid_child_json _ = True"

fun valid_child :: "js_value \<Rightarrow> bool" where
  "valid_child Undefined = True"
| "valid_child (Value v) = valid_child_json v"
| "valid_child (ObjectPrototypeMember key) = (key \<noteq> js ''__proto__'')"
| "valid_child (PrototypeLookup p key) =
     (p = ArrayPrototype \<or> p = StringPrototype \<or> key \<noteq> js ''__proto__'')"

text \<open>\<open>Object.entries(x)\<close>; it throws on \<open>null\<close>.\<close>

fun entries :: "json \<Rightarrow> (js_string \<times> json) list option" where
  "entries JNull = None"
| "entries (JObj obj) = Some obj"
| "entries (JArr vs) = Some (zip (map decimal [0..<length vs]) vs)"
| "entries (JStr s) = Some (zip (map decimal [0..<length s]) (map (\<lambda>c. JStr [c]) s))"
| "entries _ = Some []"

section \<open>Rendered elements\<close>

text \<open>
  The renderers return React elements. The model keeps their content and drops the
  styling. A text node is a literal of the source, a number, the text \<open>String(v)\<close> of a
  value, or the text \<open>JSON.stringify(v, null, 2)\<close>; the last two are kept symbolic.
\<close>

datatype text_node =
    Lit js_string
  | Num rat
  | StringOf js_value
  | JsonStringify json

datatype table_row =
    DataRow text_node "text_node list"
  | SummaryRow nat "text_node list"

record DataFrameView =
  dfv_shape :: "js_value \<times> js_value"
  dfv_header :: "(json \<times> js_value) list"
  dfv_body :: "table_row list"

record SeriesView =
  sv_name :: js_string
  sv_dtype :: js_value
  sv_items :: "(text_node \<times> text_node) list"
  sv_more :: "text_node list option"

record ImageView =
  iv_size :: "js_value \<times> js_value"
  iv_mode :: js_value
  iv_src :: js_value

record UnserializableView =
  uv_type :: js_value
  uv_value :: js_value

datatype element =
    DataFrameElement DataFrameView
  | SeriesElement SeriesView
  | ImageElement ImageView
  | UnserializableElement UnserializableView
  | PreElement text_node

text \<open>
  \<open>String(v)\<close> throws exactly when the conversion of a JSON value throws. React sets a
  string attribute such as \<open>src\<close> to the text of its value, so an attribute value fails
  in the same cases.
\<close>

fun String_js :: "js_value \<Rightarrow> text_node option" where
  "String_js (Value v) = (case to_string v of None \<Rightarrow> None | Some _ \<Rightarrow> Some (StringOf (Value v)))"
| "String_js v = Some (StringOf v)"

fun attribute_ok :: "js_value \<Rightarrow> bool" where
  "attribute_ok (Value v) = (case to_string v of None \<Rightarrow> False | Some _ \<Rightarrow> True)"
| "attribute_ok _ = True"

section \<open>The specialised renderers\<close>

text \<open>
  \<open>renderResult\<close> hands the tagged object to its renderer through an unchecked cast, so
  a renderer gets whatever object carries the tag. Each renderer is followed on every
  object: its result is \<open>None\<close> when the render throws, either while the element is
  built (a property read on \<open>undefined\<close> or \<open>null\<close>, a call of \<open>slice\<close> or
  \<open>map\<close> on something that has no such method, a conversion to text that throws) or
  when React meets an object as a child.

  \<open>renderDataFrame\<close>: \<open>df.data\<close> and \<open>df.columns\<close> must be arrays for \<open>slice\<close>,
  \<open>length\<close> and \<open>map\<close> to go through (a string has \<open>slice\<close> but no \<open>map\<close>). A
  header cell holds the column label and \<open>df.dtypes[col]\<close>. A data row holds
  \<open>String(df.index[rowIdx])\<close> and \<open>String(row[col])\<close> per column. The summary row spans
  the index column and all data columns. \<open>dataFrameTable\<close> is the body of the
  function once \<open>df.data\<close> and \<open>df.columns\<close> are known to be arrays.
\<close>

definition headerCell :: "json_object \<Rightarrow> json \<Rightarrow> (json \<times> js_value) option" where
  "headerCell df col =
     Option.bind (to_string col) (\<lambda>key.
     Option.bind (field_property df ''dtypes'' key) (\<lambda>dtype.
       if valid_child_json col \<and> valid_child dtype then Some (col, dtype) else None))"

definition dataCell :: "json \<Rightarrow> json \<Rightarrow> text_node option" where
  "dataCell row col =
     Option.bind (to_string col) (\<lambda>key. Option.bind (get_property row key) String_js)"

definition dataRow :: "json_object \<Rightarrow> json list \<Rightarrow> nat \<Rightarrow> json \<Rightarrow> table_row option" where
  "dataRow df cols rowIdx row =
     Option.bind (field_property df ''index'' (decimal rowIdx)) (\<lambda>label.
     Option.bind (String_js label) (\<lambda>labelText.
     Option.bind (those (map (dataCell row) cols)) (\<lambda>cells.
       Some (DataRow labelText cells))))"

definition dataFrameTable :: "json_object \<Rightarrow> json list \<Rightarrow> json list \<Rightarrow> DataFrameView option" where
  "dataFrameTable df rows cols =
     (let maxRows = 10;
          displayData = take maxRows rows;
          hasMoreRows = (length rows > maxRows)
      in Option.bind (field_property df ''shape'' (js ''0'')) (\<lambda>shape0.
         Option.bind (field_property df ''shape'' (js ''1'')) (\<lambda>shape1.
         Option.bind (those (map (headerCell df) cols)) (\<lambda>header.
         Option.bind (those (map (\<lambda>(rowIdx, row). dataRow df cols rowIdx row)
                               (enumerate 0 displayData))) (\<lambda>dataRows.
           if valid_child shape0 \<and> valid_child shape1
           then Some \<lparr> dfv_shape = (shape0, shape1),
                       dfv_header = header,
                       dfv_body = dataRows @
                         (if hasMoreRows
                          then [SummaryRow (length cols + 1)
                                  [Lit (js ''... and ''),
                                   Num (of_nat (length rows) - of_nat maxRows),
                                   Lit (js '' more rows'')]]
                          else []) \<rparr>
           else None)))))"

definition renderDataFrame :: "json_object \<Rightarrow> DataFrameView option" where
  "renderDataFrame df =
     (case map_of df (js ''data'') of
        Some (JArr rows) \<Rightarrow>
          (case map_of df (js ''columns'') of
             Some (JArr cols) \<Rightarrow> dataFrameTable df rows cols
           | _ \<Rightarrow> None)
      | _ \<Rightarrow> None)"

text \<open>
  \<open>renderSeries\<close>: the entries of \<open>series.data\<close>, the first ten shown as
  \<open>String(index)\<close> and \<open>String(value)\<close>; the name in parentheses when it is truthy.
\<close>

definition seriesItem :: "js_string \<times> json \<Rightarrow> (text_node \<times> text_node) option" where
  "seriesItem = (\<lambda>(index, v).
     map_option (\<lambda>valueText. (StringOf (Value (JStr index)), valueText)) (String_js (Value v)))"

definition renderSeries :: "json_object \<Rightarrow> SeriesView option" where
  "renderSeries series =
     (case map_of series (js ''data'') of
        None \<Rightarrow> None
      | Some d \<Rightarrow>
          Option.bind (entries d) (\<lambda>all.
            let maxItems = 10;
                shown = take maxItems all;
                hasMoreItems = (length all > maxItems);
                dtype = object_property series (js ''dtype'')
            in Option.bind
                 (case map_of series (js ''name'') of
                    None \<Rightarrow> Some []
                  | Some n \<Rightarrow>
                      if truthy n
                      then map_option (\<lambda>t. js ''('' @ t @ js '')'') (to_string n)
                      else Some []) (\<lambda>name.
               Option.bind (those (map seriesItem shown)) (\<lambda>items.
                 if valid_child dtype
                 then Some \<lparr> sv_name = name,
                             sv_dtype = dtype,
                             sv_items = items,
                             sv_more =
                               (if hasMoreItems
                                then Some [Lit (js ''... and ''),
                                           Num (of_nat (length all) - of_nat maxItems),
                                           Lit (js '' more items'')]
                                else None) \<rparr>
                 else None))))"

definition renderImage :: "json_object \<Rightarrow> ImageView option" where
  "renderImage img =
     Option.bind (field_property img ''size'' (js ''0'')) (\<lambda>width.
     Option.bind (field_property img ''size'' (js ''1'')) (\<lambda>height.
       let mode = object_property img (js ''mode'');
           src = object_property img (js ''data'')
       in if valid_child width \<and> valid_child height \<and> valid_child mode \<and> attribute_ok src
          then Some \<lparr> iv_size = (width, height), iv_mode = mode, iv_src = src \<rparr>
          else None))"

definition renderUnserializable :: "json_object \<Rightarrow> UnserializableView option" where
  "renderUnserializable obj =
     (let type = object_property obj (js ''type'');
          val = object_property obj (js ''value'')
      in if valid_child type \<and> valid_child val
         then Some \<lparr> uv_type = type, uv_value = val \<rparr>
         else None)"

section \<open>\<open>renderResult\<close>\<close>

datatype render_error = RenderThrows

definition rendered :: "'a option \<Rightarrow> ('a \<Rightarrow> element) \<Rightarrow> render_error + element" where
  "rendered view wrap = (case view of None \<Rightarrow> Inl RenderThrows | Some x \<Rightarrow> Inr (wrap x))"

text \<open>\<open>typeof v === 'object'\<close> holds for \<open>null\<close>, arrays and objects.\<close>

fun typeof_object :: "json \<Rightarrow> bool" where
  "typeof_object JNull = True"
| "typeof_object (JArr _) = True"
| "typeof_object (JObj _) = True"
| "typeof_object _ = False"

definition defaultJsonRendering :: "json \<Rightarrow> element" where
  "defaultJsonRendering v =
     PreElement (if typeof_object v then JsonStringify v else StringOf (Value v))"

text \<open>The \<open>_type\<close> discriminator of a value, when it is an object that has one.\<close>

fun type_tag :: "json \<Rightarrow> json option" where
  "type_tag (JObj obj) = map_of obj (js ''_type'')"
| "type_tag _ = None"

fun renderResult :: "json \<Rightarrow> render_error + element" where
  "renderResult (JObj obj) =
     (case map_of obj (js ''_type'') of
        Some t \<Rightarrow>
          if t = JStr (js ''dataframe'') then rendered (renderDataFrame obj) DataFrameElement
          else if t = JStr (js ''series'') then rendered (renderSeries obj) SeriesElement
          else if t = JStr (js ''image'') then rendered (renderImage obj) ImageElement
          else if t = JStr (js ''unserializable'') then
            rendered (renderUnserializable obj) UnserializableElement
          else Inr (defaultJsonRendering (JObj obj))
      | None \<Rightarrow> Inr (defaultJsonRendering (JObj obj)))"
| "renderResult v = Inr (defaultJsonRendering v)"

section \<open>The output panels of the editor page\<close>

datatype figure_label = MatplotlibFigure rat | TypeLabel js_string

record VisualizationView =
  vv_label :: figure_label
  vv_format :: js_string
  vv_src :: js_string
  vv_alt :: nat

datatype stdout_body = StdoutText js_string | NoStandardOutput

datatype panel =
    ExecutingSpinner
  | ErrorPanel js_string
  | VisualizationsPanel "VisualizationView list"
  | StdoutPanel stdout_body
  | ResultPanel ExecutionMode element
  | NoOutputNotice
  | OutputPlaceholder

definition renderVisualization :: "nat \<times> Visualization \<Rightarrow> VisualizationView" where
  "renderVisualization = (\<lambda>(index, viz).
     \<lparr> vv_label =
         (if viz_type viz = js ''matplotlib''
          then MatplotlibFigure
                 (case viz_figure_number viz of
                    Some n \<Rightarrow> if n \<noteq> 0 then n else of_nat index + 1
                  | None \<Rightarrow> of_nat index + 1)
          else TypeLabel (viz_type viz)),
       vv_format = viz_format viz,
       vv_src = viz_data viz,
       vv_alt = index + 1 \<rparr>)"

text \<open>
  The guards of the JSX block. A string guards by truthiness: the empty string renders
  nothing, like an absent field.
\<close>

definition hasError :: "ApiResponse \<Rightarrow> bool" where
  "hasError r = (case error r of None \<Rightarrow> False | Some e \<Rightarrow> e \<noteq> [])"

definition hasVisualizations :: "ApiResponse \<Rightarrow> bool" where
  "hasVisualizations r = (case visualizations r of None \<Rightarrow> False | Some vs \<Rightarrow> length vs > 0)"

definition hasResult :: "ApiResponse \<Rightarrow> bool" where
  "hasResult r = (case result r of None \<Rightarrow> False | Some v \<Rightarrow> v \<noteq> JNull)"

text \<open>
  The block \<open>{apiResponse && (<> ... </>)}\<close>: the panels in page order. The inner
  expression of the stdout panel, \<open>apiResponse.stdout || <span>No standard
  output.</span>\<close>, is kept as the source has it. \<open>renderResult\<close> is called while the
  block is built, so a failure there is a failure of the whole block.
\<close>

definition responsePanels ::
  "bool \<Rightarrow> ExecutionMode \<Rightarrow> ApiResponse \<Rightarrow> render_error + panel list" where
  "responsePanels isLoading executionMode apiResponse =
     (let errorPanel =
            (case error apiResponse of
               None \<Rightarrow> []
             | Some e \<Rightarrow> if e \<noteq> [] then [ErrorPanel e] else []);
          visualizationsPanel =
            (case visualizations apiResponse of
               None \<Rightarrow> []
             | Some vs \<Rightarrow>
                 if length vs > 0
                 then [VisualizationsPanel (map renderVisualization (enumerate 0 vs))]
                 else []);
          stdoutPanel =
            (if stdout apiResponse \<noteq> []
             then [StdoutPanel (if stdout apiResponse \<noteq> []
                                then StdoutText (stdout apiResponse)
                                else NoStandardOutput)]
             else []);
          noOutputNotice =
            (if \<not> hasError apiResponse \<and> stdout apiResponse = [] \<and>
                \<not> hasVisualizations apiResponse \<and> \<not> hasResult apiResponse \<and> \<not> isLoading
             then [NoOutputNotice]
             else [])
      in case result apiResponse of
           None \<Rightarrow> Inr (errorPanel @ visualizationsPanel @ stdoutPanel @ noOutputNotice)
         | Some v \<Rightarrow>
             if v = JNull
             then Inr (errorPanel @ visualizationsPanel @ stdoutPanel @ noOutputNotice)
             else (case renderResult v of
                     Inl err \<Rightarrow> Inl err
                   | Inr el \<Rightarrow>
                       Inr (errorPanel @ visualizationsPanel @ stdoutPanel @
                            [ResultPanel executionMode el] @ noOutputNotice)))"

definition outputContent ::
  "bool \<Rightarrow> ExecutionMode \<Rightarrow> ApiResponse option \<Rightarrow> render_error + panel list" where
  "outputContent isLoading executionMode apiResponse =
     (case apiResponse of
        None \<Rightarrow> Inr (if isLoading then [ExecutingSpinner] else [OutputPlaceholder])
      | Some r \<Rightarrow> responsePanels isLoading executionMode r)"

text \<open>
  The result of a response renders when it is absent, \<open>null\<close>, or a value on which
  \<open>renderResult\<close> succeeds.
\<close>

definition resultRenders :: "ApiResponse \<Rightarrow> bool" where
  "resultRenders r =
     (case result r of
        None \<Rightarrow> True
      | Some v \<Rightarrow> v = JNull \<or> (case renderResult v of Inl _ \<Rightarrow> False | Inr _ \<Rightarrow> True))"

section \<open>Submission\<close>

text \<open>
  \<open>handleSubmit\<close> up to the point where the request is issued: the state it leaves and
  the effects it performs, in order. \<open>hostname\<close> is \<open>None\<close> when \<open>window\<close> is
  undefined; \<open>NEXT_PUBLIC_FLASK_API_URL\<close> is \<open>None\<close> when the variable is not set.
  \<open>abortController\<close> tells whether a controller is held. Console and status texts
  are named by constructors.
\<close>

record Environment =
  hostname :: "js_string option"
  NEXT_PUBLIC_FLASK_API_URL :: "js_string option"

datatype message =
    ExecutionCancelledByUser
  | PleaseEnterCode
  | UsingLocalApi js_string
  | UsingProductionApi js_string
  | ApiUrlNotConfigured

datatype effect =
    ConsoleLog message
  | ConsoleError message
  | Abort
  | Fetch js_string js_string

record EditorState =
  userCode :: js_string
  executionMode :: ExecutionMode
  apiResponse :: "ApiResponse option"
  isLoading :: bool
  abortController :: bool

definition isLocalDev :: "Environment \<Rightarrow> bool" where
  "isLocalDev env =
     (case hostname env of
        None \<Rightarrow> False
      | Some h \<Rightarrow> h = js ''localhost'' \<or> h = js ''127.0.0.1'' \<or> includes_js h (js ''.local''))"

definition handleSubmit :: "Environment \<Rightarrow> EditorState \<Rightarrow> EditorState \<times> effect list" where
  "handleSubmit env st =
     (if isLoading st \<and> abortController st then
        (st\<lparr> abortController := False, isLoading := False \<rparr>,
         [Abort, ConsoleLog ExecutionCancelledByUser])
      else if trim (userCode st) = [] then
        (st\<lparr> apiResponse := None \<rparr>, [ConsoleError PleaseEnterCode])
      else
        let st1 = st\<lparr> isLoading := True, apiResponse := None \<rparr> in
        if isLocalDev env then
          let apiUrl = js ''http://localhost:5000/execute'' in
          (st1\<lparr> abortController := True \<rparr>,
           [ConsoleLog (UsingLocalApi apiUrl),
            Fetch apiUrl (prepareCodeForExecution (userCode st) (executionMode st))])
        else
          let apiUrl = (case NEXT_PUBLIC_FLASK_API_URL env of None \<Rightarrow> [] | Some u \<Rightarrow> u) in
          if apiUrl = [] then
            (st1\<lparr> isLoading := False \<rparr>, [ConsoleError ApiUrlNotConfigured])
          else
            (st1\<lparr> abortController := True \<rparr>,
             [ConsoleLog (UsingProductionApi apiUrl),
              Fetch apiUrl (prepareCodeForExecution (userCode st) (executionMode st))]))"

text \<open>
  The earlier copy of the editor page keeps a \<open>networkError\<close> status that the page
  shows, and computes the production URL as
  \<open>process.env.NEXT_PUBLIC_FLASK_API_URL + '/execute'\<close>: an unset variable is
  \<open>undefined\<close>, and the sum is the string \<open>undefined/execute\<close>.
\<close>

record EditorState_001 = EditorState +
  networkError :: "message option"

definition handleSubmit_001 ::
  "Environment \<Rightarrow> EditorState_001 \<Rightarrow> EditorState_001 \<times> effect list" where
  "handleSubmit_001 env st =
     (if isLoading st \<and> abortController st then
        (st\<lparr> abortController := False, isLoading := False,
             networkError := Some ExecutionCancelledByUser \<rparr>,
         [Abort])
      else if trim (userCode st) = [] then
        (st\<lparr> networkError := Some PleaseEnterCode, apiResponse := None \<rparr>, [])
      else
        let st1 = st\<lparr> isLoading := True, networkError := None, apiResponse := None \<rparr> in
        if isLocalDev env then
          let apiUrl = js ''http://localhost:5000/execute'' in
          (st1\<lparr> abortController := True \<rparr>,
           [ConsoleLog (UsingLocalApi apiUrl),
            Fetch apiUrl (prepareCodeForExecution_001 (userCode st) (executionMode st))])
        else
          let apiUrl = (case NEXT_PUBLIC_FLASK_API_URL env of
                          None \<Rightarrow> js ''undefined''
                        | Some u \<Rightarrow> u) @ js ''/execute'' in
          if apiUrl = [] then
            (st1\<lparr> networkError := Some ApiUrlNotConfigured, isLoading := False \<rparr>, [])
          else
            (st1\<lparr> abortController := True \<rparr>,
             [ConsoleLog (UsingProductionApi apiUrl),
              Fetch apiUrl (prepareCodeForExecution_001 (userCode st) (executionMode st))]))"

section \<open>Strings: trimming, splitting and joining\<close>

lemma trim_Nil_iff: "trim s = [] \<longleftrightarrow> (\<forall>c\<in>set s. isWhiteSpace c)"
proof
  assume "trim s = []"
  then have "\<forall>c\<in>set (dropWhile isWhiteSpace s). isWhiteSpace c"
    by (simp add: trim_def dropWhile_eq_Nil_conv)
  then have "dropWhile isWhiteSpace s = []"
    using hd_dropWhile [of isWhiteSpace s] by (cases "dropWhile isWhiteSpace s") auto
  then show "\<forall>c\<in>set s. isWhiteSpace c"
    by (simp add: dropWhile_eq_Nil_conv)
next
  assume "\<forall>c\<in>set s. isWhiteSpace c"
  then show "trim s = []" by (auto simp: trim_def dest: set_dropWhileD)
qed

lemma split_js_not_Nil: "split_js d s \<noteq> []"
  by (induction s) (auto split: list.splits)

lemma split_js_append: "split_js d (xs @ d # ys) = split_js d xs @ split_js d ys"
  by (induction xs) (auto split: list.splits simp: split_js_not_Nil)

lemma split_js_no_sep: "d \<notin> set s \<Longrightarrow> split_js d s = [s]"
  by (induction s) auto

lemma split_js_pieces: "l \<in> set (split_js d s) \<Longrightarrow> d \<notin> set l"
  by (induction s arbitrary: l) (auto split: if_splits list.splits)

lemma join_split_js: "join_js [d] (split_js d s) = s"
proof (induction s)
  case Nil
  show ?case by simp
next
  case (Cons c cs)
  show ?case
  proof (cases "c = d")
    case True
    with Cons show ?thesis
      by (cases "split_js d cs") (simp_all add: split_js_not_Nil)
  next
    case False
    obtain l ls where sp: "split_js d cs = l # ls"
      using split_js_not_Nil [of d cs] by (cases "split_js d cs") auto
    with Cons False show ?thesis
      by (cases ls) auto
  qed
qed

lemma split_join_js:
  "ls \<noteq> [] \<Longrightarrow> \<forall>l\<in>set ls. d \<notin> set l \<Longrightarrow> split_js d (join_js [d] ls) = ls"
proof (induction "[d]" ls rule: join_js.induct)
  case 1
  then show ?case by simp
next
  case (2 l)
  then show ?case by (simp add: split_js_no_sep)
next
  case (3 l m ls)
  then show ?case
    using split_js_append [of d l "join_js [d] (m # ls)"]
    by (simp add: split_js_no_sep)
qed

lemma length_split_js: "length (split_js d s) = Suc (count_list s d)"
  by (induction s) (auto split: list.splits simp: split_js_not_Nil)

section \<open>The scan for \<open>return\<close>\<close>

lemma js_return: "js ''return'' = [0x72, 0x65, 0x74, 0x75, 0x72, 0x6E]"
  by (simp add: js_def)

lemma return_match_at_bounds:
  assumes "return_match_at s i"
  shows "take 6 (drop i s) = js ''return''" and "i + 6 \<le> length s"
    and "i = 0 \<or> \<not> isWordChar (s ! (i - 1))"
    and "\<not> (i + 6 < length s \<and> isWordChar (s ! (i + 6)))"
proof -
  from assms have tk: "take 6 (drop i s) = js ''return''"
    and b1: "word_boundary s i" and b2: "word_boundary s (i + 6)"
    by (simp_all add: return_match_at_def)
  from tk have len: "i + 6 \<le> length s"
    using length_take [of 6 "drop i s"] by (simp add: js_return)
  have "s ! i = (take 6 (drop i s)) ! 0" using len by simp
  then have si: "s ! i = 0x72" by (simp add: tk js_return)
  have "s ! (i + 5) = (take 6 (drop i s)) ! 5" using len by simp
  then have si5: "s ! (i + 5) = 0x6E" by (simp add: tk js_return)
  have w1: "isWordChar (s ! i)" by (simp add: si isWordChar_def)
  have w2: "isWordChar (s ! (i + 5))" by (simp add: si5 isWordChar_def)
  show "take 6 (drop i s) = js ''return''" by (rule tk)
  show "i + 6 \<le> length s" by (rule len)
  from b1 w1 len show "i = 0 \<or> \<not> isWordChar (s ! (i - 1))"
    by (auto simp: word_boundary_def Let_def)
  from b2 w2 len show "\<not> (i + 6 < length s \<and> isWordChar (s ! (i + 6)))"
    by (auto simp: word_boundary_def Let_def add.commute)
qed

lemma return_match_at_iff:
  "return_match_at s i \<longleftrightarrow>
     (\<exists>post. s = take i s @ js ''return'' @ post \<and> i \<le> length s \<and>
        (i = 0 \<or> \<not> isWordChar (s ! (i - 1))) \<and> (post = [] \<or> \<not> isWordChar (hd post)))"
  (is "?L \<longleftrightarrow> ?R")
proof
  assume L: ?L
  note tk = return_match_at_bounds(1) [OF L] and len = return_match_at_bounds(2) [OF L]
    and c1 = return_match_at_bounds(3) [OF L] and c2 = return_match_at_bounds(4) [OF L]
  define post where "post = drop (i + 6) s"
  have "s = take i s @ take 6 (drop i s) @ drop 6 (drop i s)"
    by (simp only: append_take_drop_id)
  then have dec: "s = take i s @ js ''return'' @ post"
    by (simp add: tk post_def add.commute)
  have "post = [] \<or> \<not> isWordChar (hd post)"
    using c2 by (auto simp: post_def hd_drop_conv_nth)
  with dec c1 len show ?R by auto
next
  assume ?R
  then obtain post where dec: "s = take i s @ js ''return'' @ post" and len: "i \<le> length s"
    and c1: "i = 0 \<or> \<not> isWordChar (s ! (i - 1))"
    and c2: "post = [] \<or> \<not> isWordChar (hd post)" by blast
  have "drop i s = drop i (take i s @ js ''return'' @ post)"
    using dec by simp
  then have ds: "drop i s = js ''return'' @ post"
    using len by simp
  then have tk: "take 6 (drop i s) = js ''return''" by (simp add: js_return)
  have len6: "i + 6 \<le> length s"
    using arg_cong [OF ds, of length] by (simp add: js_return)
  have "s ! i = (drop i s) ! 0" using len6 by simp
  then have si: "s ! i = 0x72" by (simp add: ds js_return)
  have "s ! (i + 5) = (drop i s) ! 5" using len6 by simp
  then have si5: "s ! (i + 5) = 0x6E" by (simp add: ds js_return)
  have w1: "isWordChar (s ! i)" by (simp add: si isWordChar_def)
  have w2: "isWordChar (s ! (i + 5))" by (simp add: si5 isWordChar_def)
  have b1: "word_boundary s i"
    using c1 w1 len6 by (auto simp: word_boundary_def Let_def)
  have dp: "drop (i + 6) s = post"
    using arg_cong [OF ds, of "drop 6"] by (simp add: js_return add.commute)
  have "\<not> (i + 6 < length s \<and> isWordChar (s ! (i + 6)))"
    using c2 dp by (auto simp: hd_drop_conv_nth [symmetric])
  then have b2: "word_boundary s (i + 6)"
    using w2 len6 by (auto simp: word_boundary_def Let_def add.commute)
  from b1 tk b2 show ?L by (simp add: return_match_at_def)
qed

lemma return_regex_test_iff: "return_regex_test s \<longleftrightarrow> return_token_in s"
proof
  assume "return_regex_test s"
  then have "\<exists>i\<in>set [0..<Suc (length s)]. return_match_at s i"
    by (simp only: return_regex_test_def list_ex_iff)
  then obtain i where "i \<in> set [0..<Suc (length s)]" "return_match_at s i" by blast
  then have "i \<le> length s" by auto
  with \<open>return_match_at s i\<close> obtain post where dec: "s = take i s @ js ''return'' @ post"
    and c1: "i = 0 \<or> \<not> isWordChar (s ! (i - 1))"
    and c2: "post = [] \<or> \<not> isWordChar (hd post)"
    unfolding return_match_at_iff by blast
  have "take i s = [] \<or> \<not> isWordChar (last (take i s))"
    using c1 \<open>i \<le> length s\<close> by (auto simp: last_conv_nth)
  with dec c2 show "return_token_in s"
    unfolding return_token_in_def by blast
next
  assume "return_token_in s"
  then obtain pre post where dec: "s = pre @ js ''return'' @ post"
    and c1: "pre = [] \<or> \<not> isWordChar (last pre)"
    and c2: "post = [] \<or> \<not> isWordChar (hd post)"
    unfolding return_token_in_def by blast
  have tk: "take (length pre) s = pre" by (subst dec) simp
  have lp: "length pre \<le> length s" by (subst dec) simp
  have c1': "length pre = 0 \<or> \<not> isWordChar (s ! (length pre - 1))"
  proof (cases "pre = []")
    case True then show ?thesis by simp
  next
    case False
    then have "s ! (length pre - 1) = pre ! (length pre - 1)"
      by (subst dec) (simp add: nth_append)
    also have "\<dots> = last pre" using False by (simp add: last_conv_nth)
    finally show ?thesis using c1 False by simp
  qed
  have "s = take (length pre) s @ js ''return'' @ post"
    unfolding tk by (rule dec)
  with lp c1' c2 have "return_match_at s (length pre)"
    unfolding return_match_at_iff by blast
  moreover have "length pre \<in> set [0..<Suc (length s)]" using lp by auto
  ultimately show "return_regex_test s"
    unfolding return_regex_test_def list_ex_iff by blast
qed

lemma whitespace_not_word: "isWhiteSpace c \<Longrightarrow> \<not> isWordChar c"
  by (auto simp: isWhiteSpace_def isWordChar_def word_le_nat_alt)

lemma return_token_in_Cons:
  assumes "isWhiteSpace c"
  shows "return_token_in (c # s) \<longleftrightarrow> return_token_in s"
proof
  assume "return_token_in (c # s)"
  then obtain pre post where dec: "c # s = pre @ js ''return'' @ post"
    and c1: "pre = [] \<or> \<not> isWordChar (last pre)"
    and c2: "post = [] \<or> \<not> isWordChar (hd post)"
    unfolding return_token_in_def by blast
  have "pre \<noteq> []"
  proof
    assume "pre = []"
    with dec have "c = 0x72" by (simp add: js_return)
    with assms show False by (simp add: isWhiteSpace_def)
  qed
  then obtain pre' where pre: "pre = c # pre'" using dec by (cases pre) auto
  with dec have "s = pre' @ js ''return'' @ post" by simp
  moreover have "pre' = [] \<or> \<not> isWordChar (last pre')" using c1 pre by auto
  ultimately show "return_token_in s" using c2 unfolding return_token_in_def by blast
next
  assume "return_token_in s"
  then obtain pre post where dec: "s = pre @ js ''return'' @ post"
    and c1: "pre = [] \<or> \<not> isWordChar (last pre)"
    and c2: "post = [] \<or> \<not> isWordChar (hd post)"
    unfolding return_token_in_def by blast
  have "c # s = (c # pre) @ js ''return'' @ post" using dec by simp
  moreover have "\<not> isWordChar (last (c # pre))"
    using c1 whitespace_not_word [OF assms] by auto
  ultimately show "return_token_in (c # s)" using c2 unfolding return_token_in_def by blast
qed

lemma return_token_in_snoc:
  assumes "isWhiteSpace c"
  shows "return_token_in (s @ [c]) \<longleftrightarrow> return_token_in s"
proof
  assume "return_token_in (s @ [c])"
  then obtain pre post where dec: "s @ [c] = pre @ js ''return'' @ post"
    and c1: "pre = [] \<or> \<not> isWordChar (last pre)"
    and c2: "post = [] \<or> \<not> isWordChar (hd post)"
    unfolding return_token_in_def by blast
  have "post \<noteq> []"
  proof
    assume "post = []"
    with dec have "last (s @ [c]) = last (pre @ js ''return'')" by simp
    then have "c = 0x6E" by (simp add: js_return)
    with assms show False by (simp add: isWhiteSpace_def)
  qed
  then obtain post' where post: "post = post' @ [c]"
    using dec by (cases post rule: rev_cases) auto
  with dec have "s = pre @ js ''return'' @ post'" by simp
  moreover have "post' = [] \<or> \<not> isWordChar (hd post')" using c2 post by auto
  ultimately show "return_token_in s" using c1 unfolding return_token_in_def by blast
next
  assume "return_token_in s"
  then obtain pre post where dec: "s = pre @ js ''return'' @ post"
    and c1: "pre = [] \<or> \<not> isWordChar (last pre)"
    and c2: "post = [] \<or> \<not> isWordChar (hd post)"
    unfolding return_token_in_def by blast
  have "s @ [c] = pre @ js ''return'' @ (post @ [c])" using dec by simp
  moreover have "\<not> isWordChar (hd (post @ [c]))"
    using c2 whitespace_not_word [OF assms] by (cases post) auto
  ultimately show "return_token_in (s @ [c])" using c1 unfolding return_token_in_def by blast
qed

lemma return_token_in_trimStart:
  "return_token_in (dropWhile isWhiteSpace s) \<longleftrightarrow> return_token_in s"
  by (induction s) (simp_all add: return_token_in_Cons)

lemma return_token_in_trimEnd:
  "return_token_in (rev (dropWhile isWhiteSpace (rev s))) \<longleftrightarrow> return_token_in s"
  by (induction s rule: rev_induct) (simp_all add: return_token_in_snoc)

lemma return_token_in_trim: "return_token_in (trim s) \<longleftrightarrow> return_token_in s"
  by (simp add: trim_def return_token_in_trimEnd return_token_in_trimStart)

lemma hasReturnStatement_iff: "return_regex_test (trim s) \<longleftrightarrow> return_token_in s"
  by (simp add: return_regex_test_iff return_token_in_trim)


lemma return_regex_test_trim: "return_regex_test (trim s) \<longleftrightarrow> return_regex_test s"
  by (simp add: return_regex_test_iff return_token_in_trim)

text \<open>
  The word characters are ASCII only: a letter outside \<open>[A-Za-z0-9_]\<close> after
  \<open>return\<close> does not stop the match.
\<close>

lemma return_before_other_letter_matches:
  "return_regex_test (js ''return'' @ [0xE9] @ js '' = 1'')"
  by code_simp

section \<open>Properties of the code preparer\<close>

text \<open>
  Claim C1. In Script mode the preparer returns the code unchanged when the code has no
  \<open>return\<close> token (the regular expression does not match it), and otherwise returns
  exactly what Function mode returns on the same text. The source scans the trimmed text;
  by \<open>return_regex_test_trim\<close> that is the same as scanning the text itself.
\<close>
theorem prepare_script_return_detection:
  "prepareCodeForExecution rawCode Script =
     (if return_regex_test rawCode then prepareCodeForExecution rawCode Function else rawCode)"
  by (simp add: prepareCodeForExecution_def return_regex_test_trim)

text \<open>Both branches of C1 on concrete code.\<close>
theorem prepare_script_return_detection_witness:
  "\<not> return_regex_test (js ''print(1)'') \<and>
   prepareCodeForExecution (js ''print(1)'') Script = js ''print(1)'' \<and>
   return_regex_test (js ''x = 1\<newline>return x'') \<and>
   prepareCodeForExecution (js ''x = 1\<newline>return x'') Script =
     prepareCodeForExecution (js ''x = 1\<newline>return x'') Function \<and>
   prepareCodeForExecution (js ''x = 1\<newline>return x'') Script =
     js ''def main():\<newline>    x = 1\<newline>    return x\<newline>''"
proof -
  have a: "\<not> return_regex_test (js ''print(1)'')" by code_simp
  have b: "return_regex_test (js ''x = 1\<newline>return x'')" by code_simp
  have c: "prepareCodeForExecution (js ''x = 1\<newline>return x'') Function =
     js ''def main():\<newline>    x = 1\<newline>    return x\<newline>''" by code_simp
  from a b c show ?thesis
    using prepare_script_return_detection [of "js ''print(1)''"]
      prepare_script_return_detection [of "js ''x = 1\<newline>return x''"]
    by (simp only: if_True if_False simp_thms)
qed

lemma split_wrapped:
  assumes "trim rawCode \<noteq> []"
  shows "split_js 0x0A (wrapCodeInMainFunction rawCode) =
           js ''def main():'' # map (\<lambda>line. js ''    '' @ line) (split_js 0x0A (trim rawCode)) @ [[]]"
proof -
  let ?lines = "split_js 0x0A (trim rawCode)"
  let ?ind = "map (\<lambda>line. js ''    '' @ line) ?lines"
  have no_nl: "\<forall>l\<in>set ?ind. (0x0A::code_unit) \<notin> set l"
    using split_js_pieces [of _ "0x0A" "trim rawCode"] by (auto simp: js_def)
  have ne: "?ind \<noteq> []" by (simp add: split_js_not_Nil)
  have body: "split_js 0x0A (join_js [0x0A] ?ind) = ?ind"
    using ne no_nl by (rule split_join_js)
  have hd: "split_js 0x0A (js ''def main():'') = [js ''def main():'']"
    by (rule split_js_no_sep) (simp add: js_def)
  have nl1: "js ''def main():\<newline>'' = js ''def main():'' @ [0x0A]"
    and nl2: "js ''\<newline>'' = [0x0A]"
    by (simp_all add: js_def)
  have w: "wrapCodeInMainFunction rawCode =
             js ''def main():'' @ 0x0A # (join_js [0x0A] ?ind @ 0x0A # [])"
    using assms by (simp add: wrapCodeInMainFunction_def Let_def nl1 nl2)
  show ?thesis
    unfolding w split_js_append hd body by simp
qed

text \<open>
  Claim C2, as the code has it. When the trimmed code is not empty, the Function-mode
  output, cut at its line feeds, is the header line \<open>def main():\<close>, then every line of
  the trimmed code with four spaces put in front, then one empty piece, which is the line
  feed appended at the end. So output line \<open>i + 1\<close> is line \<open>i\<close> of the trimmed code,
  indented, and the output has one line feed more than the trimmed code has lines. The
  lines are those of the trimmed code, not of the raw code: white space and blank lines at
  either end of the raw code are dropped first.
\<close>
theorem wrap_lines_of_trimmed:
  assumes "trim rawCode \<noteq> []"
  shows "split_js 0x0A (prepareCodeForExecution rawCode Function) =
           js ''def main():'' # map (\<lambda>line. js ''    '' @ line) (split_js 0x0A (trim rawCode)) @ [[]]
         \<and> count_list (prepareCodeForExecution rawCode Function) 0x0A =
           length (split_js 0x0A (trim rawCode)) + 1"
proof -
  have eq: "split_js 0x0A (prepareCodeForExecution rawCode Function) =
           js ''def main():'' # map (\<lambda>line. js ''    '' @ line) (split_js 0x0A (trim rawCode)) @ [[]]"
    using split_wrapped [OF assms] by (simp add: prepareCodeForExecution_def)
  have "Suc (count_list (prepareCodeForExecution rawCode Function) 0x0A) =
          length (split_js 0x0A (trim rawCode)) + 2"
    using arg_cong [OF eq, of length] by (simp add: length_split_js)
  with eq show ?thesis by simp
qed

text \<open>
  C2 on code with leading spaces and a trailing line feed: the first line loses its own
  indentation, inner lines keep theirs.
\<close>
theorem wrap_lines_of_trimmed_witness:
  "trim (js ''  a = 1\<newline>  return a\<newline>'') \<noteq> [] \<and>
   split_js 0x0A (prepareCodeForExecution (js ''  a = 1\<newline>  return a\<newline>'') Function) =
     [js ''def main():'', js ''    a = 1'', js ''      return a'', []] \<and>
   count_list (prepareCodeForExecution (js ''  a = 1\<newline>  return a\<newline>'') Function) 0x0A = 3"
proof -
  have h: "trim (js ''  a = 1\<newline>  return a\<newline>'') \<noteq> []" by code_simp
  have t: "split_js 0x0A (trim (js ''  a = 1\<newline>  return a\<newline>'')) = [js ''a = 1'', js ''  return a'']"
    by code_simp
  show ?thesis
    using h wrap_lines_of_trimmed [OF h] unfolding t by (simp add: js_def)
qed

text \<open>
  Claim C2 as stated fails on code that starts with blank lines. The raw code below has
  three lines; the output has two lines and an appended line feed, so neither the number
  of pieces between line feeds (3) nor the number of line feeds (2) is \<open>3 + 1\<close>.
\<close>
theorem wrap_line_count_counterexample:
  "js ''\<newline>\<newline>x = 1'' \<noteq> [] \<and>
   prepareCodeForExecution (js ''\<newline>\<newline>x = 1'') Function = js ''def main():\<newline>    x = 1\<newline>'' \<and>
   length (split_js 0x0A (js ''\<newline>\<newline>x = 1'')) = 3 \<and>
   length (split_js 0x0A (prepareCodeForExecution (js ''\<newline>\<newline>x = 1'') Function)) \<noteq>
     length (split_js 0x0A (js ''\<newline>\<newline>x = 1'')) + 1 \<and>
   count_list (prepareCodeForExecution (js ''\<newline>\<newline>x = 1'') Function) 0x0A \<noteq>
     length (split_js 0x0A (js ''\<newline>\<newline>x = 1'')) + 1"
  by code_simp

text \<open>On code without white space at its ends the lines are those of the code itself.\<close>

lemma wrap_lines_already_trimmed:
  assumes "trim rawCode = rawCode" and "rawCode \<noteq> []"
  shows "split_js 0x0A (prepareCodeForExecution rawCode Function) =
           js ''def main():'' # map (\<lambda>line. js ''    '' @ line) (split_js 0x0A rawCode) @ [[]]"
  using split_wrapped [of rawCode] assms by (simp add: prepareCodeForExecution_def)

text \<open>
  Claim C3, as the code has it. On the empty string and on white space only, Function
  mode returns the no-op program; Script mode returns the input unchanged.
\<close>
theorem prepare_blank:
  assumes "\<forall>c\<in>set rawCode. isWhiteSpace c"
  shows "prepareCodeForExecution rawCode Function = js ''def main():\<newline>    pass\<newline>'' \<and>
         prepareCodeForExecution rawCode Script = rawCode"
proof -
  have t: "trim rawCode = []" using assms by (simp add: trim_Nil_iff)
  have "\<not> return_regex_test []" by code_simp
  with t show ?thesis
    by (simp add: prepareCodeForExecution_def wrapCodeInMainFunction_def)
qed

text \<open>C3 on a string of spaces and a line feed.\<close>
theorem prepare_blank_witness:
  "list_all isWhiteSpace (js '' \<newline>  '') \<and>
   prepareCodeForExecution (js '' \<newline>  '') Function = js ''def main():\<newline>    pass\<newline>'' \<and>
   prepareCodeForExecution (js '' \<newline>  '') Script = js '' \<newline>  ''"
proof -
  have h: "\<forall>c\<in>set (js '' \<newline>  ''). isWhiteSpace c"
    by (simp add: js_def isWhiteSpace_def)
  show ?thesis using h prepare_blank [OF h] by (simp add: list_all_iff)
qed

text \<open>
  Claim C3 as stated fails in Script mode: the empty string is returned as the empty
  string, not as the no-op program, and two spaces are returned as two spaces.
\<close>
theorem prepare_blank_script_counterexample:
  "prepareCodeForExecution [] Script = [] \<and>
   prepareCodeForExecution [] Script \<noteq> js ''def main():\<newline>    pass\<newline>'' \<and>
   prepareCodeForExecution (js ''  '') Script = js ''  ''"
  by code_simp

text \<open>Blank code does not reach the preparer: \<open>handleSubmit\<close> issues no request for it.\<close>

lemma handleSubmit_blank_sends_nothing:
  assumes "trim (userCode st) = []"
  shows "Fetch url body \<notin> set (snd (handleSubmit env st))"
  using assms by (simp add: handleSubmit_def)

text \<open>
  Claim C9, as the code has it. When every occurrence of the letters \<open>return\<close> in the
  code has an ASCII word character (\<open>[A-Za-z0-9_]\<close>) directly before or directly after
  it, Script mode returns the code unchanged.
\<close>
theorem prepare_script_word_boundary:
  assumes "return_only_inside_identifiers rawCode"
  shows "prepareCodeForExecution rawCode Script = rawCode"
proof -
  have "\<not> return_regex_test rawCode"
  proof
    assume "return_regex_test rawCode"
    then have "\<exists>i\<in>set [0..<Suc (length rawCode)]. return_match_at rawCode i"
      by (simp only: return_regex_test_def list_ex_iff)
    then obtain i where m: "return_match_at rawCode i" by blast
    from return_match_at_bounds [OF m]
    have tk: "take 6 (drop i rawCode) = js ''return''" and len: "i + 6 \<le> length rawCode"
      and c1: "i = 0 \<or> \<not> isWordChar (rawCode ! (i - 1))"
      and c2: "\<not> (i + 6 < length rawCode \<and> isWordChar (rawCode ! (i + 6)))"
      by simp_all
    from len have "i \<in> set [0..<length rawCode]" by simp
    with assms tk have "return_inside_identifier rawCode i"
      unfolding return_only_inside_identifiers_def list_all_iff by blast
    with c1 c2 show False by (auto simp: return_inside_identifier_def)
  qed
  then show ?thesis
    by (simp add: prepareCodeForExecution_def return_regex_test_trim)
qed

text \<open>C9 on code that mentions \<open>returned\<close> and \<open>return_value\<close>.\<close>
theorem prepare_script_word_boundary_witness:
  "return_only_inside_identifiers (js ''returned = return_value + 1'') \<and>
   prepareCodeForExecution (js ''returned = return_value + 1'') Script =
     js ''returned = return_value + 1''"
proof -
  have h: "return_only_inside_identifiers (js ''returned = return_value + 1'')" by code_simp
  show ?thesis using h prepare_script_word_boundary [OF h] by simp
qed

text \<open>
  Claim C9 as stated fails for an identifier that goes on with a letter outside ASCII: in
  the code below the only \<open>return\<close> is the start of an identifier whose next letter is
  \<open>U+00E9\<close>, the scan takes that letter for a boundary, and the code is wrapped.
\<close>
theorem prepare_script_word_boundary_counterexample:
  "prepareCodeForExecution (js ''return'' @ [0xE9] @ js '' = 1'') Script =
     js ''def main():\<newline>    return'' @ [0xE9] @ js '' = 1\<newline>'' \<and>
   prepareCodeForExecution (js ''return'' @ [0xE9] @ js '' = 1'') Script \<noteq>
     js ''return'' @ [0xE9] @ js '' = 1''"
  by code_simp

section \<open>Properties of the renderers\<close>

lemma those_eq_Some: "those xs = Some ys \<longleftrightarrow> xs = map Some ys"
  by (induction xs arbitrary: ys) (auto split: option.splits)

lemma rendered_eq_Inr:
  "rendered view wrap = Inr el \<longleftrightarrow> (\<exists>x. view = Some x \<and> el = wrap x)"
  by (auto simp: rendered_def split: option.splits)

lemma renderResult_dataframe:
  assumes "map_of obj (js ''_type'') = Some (JStr (js ''dataframe''))"
  shows "renderResult (JObj obj) = rendered (renderDataFrame obj) DataFrameElement"
  using assms by simp

lemma renderDataFrame_arrays:
  assumes "renderDataFrame df = Some view" and "map_of df (js ''data'') = Some (JArr rows)"
  shows "\<exists>cols. map_of df (js ''columns'') = Some (JArr cols) \<and>
           dataFrameTable df rows cols = Some view"
proof (cases "map_of df (js ''columns'')")
  case None
  with assms show ?thesis by (simp add: renderDataFrame_def)
next
  case (Some c)
  with assms show ?thesis by (cases c) (simp_all add: renderDataFrame_def)
qed

lemma dataFrameTable_Some:
  assumes "dataFrameTable df rows cols = Some view"
  shows "\<exists>dataRows.
           map (headerCell df) cols = map Some (dfv_header view) \<and>
           map (\<lambda>(rowIdx, row). dataRow df cols rowIdx row) (enumerate 0 (take 10 rows))
             = map Some dataRows \<and>
           dfv_body view = dataRows @
             (if 10 < length rows
              then [SummaryRow (length cols + 1)
                      [Lit (js ''... and ''), Num (of_nat (length rows) - 10),
                       Lit (js '' more rows'')]]
              else [])"
  using assms
  by (auto simp: dataFrameTable_def Let_def bind_eq_Some_conv those_eq_Some split: if_splits)

lemma renderDataFrame_Some:
  assumes r: "renderDataFrame df = Some view"
    and d: "map_of df (js ''data'') = Some (JArr rows)"
  shows "\<exists>cols dataRows.
           map_of df (js ''columns'') = Some (JArr cols) \<and>
           map (headerCell df) cols = map Some (dfv_header view) \<and>
           map (\<lambda>(rowIdx, row). dataRow df cols rowIdx row) (enumerate 0 (take 10 rows))
             = map Some dataRows \<and>
           dfv_body view = dataRows @
             (if 10 < length rows
              then [SummaryRow (length cols + 1)
                      [Lit (js ''... and ''), Num (of_nat (length rows) - 10),
                       Lit (js '' more rows'')]]
              else [])"
  using renderDataFrame_arrays [OF r d] dataFrameTable_Some by blast

lemma dataframe_rows:
  assumes m: "map (\<lambda>(rowIdx, row). dataRow df cols rowIdx row) (enumerate 0 (take 10 rows))
                = map Some dataRows"
  shows "length dataRows = min 10 (length rows)"
    and "i < 10 \<Longrightarrow> i < length rows \<Longrightarrow> dataRow df cols i (rows ! i) = Some (dataRows ! i)"
proof -
  from arg_cong [OF m, of length] show l: "length dataRows = min 10 (length rows)"
    by (simp add: min.commute)
  assume i: "i < 10" "i < length rows"
  then have il: "i < length (take 10 rows)" by simp
  from arg_cong [OF m, of "\<lambda>xs. xs ! i"] il l i
  show "dataRow df cols i (rows ! i) = Some (dataRows ! i)"
    by (simp add: nth_enumerate_eq)
qed

lemma headerCell_declared_dtype:
  assumes "map_of df (js ''dtypes'') = Some (JObj dtypes)" and "map_of dtypes c = Some t"
    and "headerCell df (JStr c) = Some h"
  shows "h = (JStr c, Value t)"
  using assms
  by (auto simp: headerCell_def field_property_def object_property_def split: if_splits)

text \<open>
  Reads follow the prototype chain: a column that a row lacks gives \<open>undefined\<close>, unless
  its name is a member of \<open>Object.prototype\<close>. A numeric label is looked up by its text.
\<close>

lemma dataCell_inherited_example:
  "dataCell (JObj [(js ''score'', JNum (js ''95''))]) (JStr (js ''constructor'')) =
     Some (StringOf (ObjectPrototypeMember (js ''constructor''))) \<and>
   dataCell (JObj [(js ''score'', JNum (js ''95''))]) (JStr (js ''grade'')) =
     Some (StringOf Undefined) \<and>
   dataCell (JObj [(js ''score'', JNum (js ''95''))]) (JStr (js ''score'')) =
     Some (StringOf (Value (JNum (js ''95'')))) \<and>
   dataCell (JObj [(js ''1.5'', JNum (js ''95''))]) (JNum (js ''1.5'')) =
     Some (StringOf (Value (JNum (js ''95''))))"
  by code_simp

text \<open>
  A frame of the \<open>DataFrameResult\<close> shape renders when every column is a string with a
  declared dtype and the cells and index labels can be converted to text.
\<close>

lemma those_map_Some:
  "(\<And>x. x \<in> set xs \<Longrightarrow> \<exists>y. f x = Some y) \<Longrightarrow> \<exists>ys. those (map f xs) = Some ys"
  by (induction xs) (auto split: option.splits)

lemma index_of_key_Some: "index_of_key key n = Some i \<Longrightarrow> i < n"
  by (auto simp: index_of_key_def find_Some_iff)

lemma String_js_array_element:
  assumes "\<forall>v\<in>set vs. to_string v \<noteq> None" and "get_property (JArr vs) key = Some x"
  shows "\<exists>t. String_js x = Some t"
  using assms
  by (auto simp: builtin_lookup_def dest!: index_of_key_Some split: option.splits if_splits)

lemma String_js_object_property:
  assumes "\<forall>v\<in>snd ` set kvs. to_string v \<noteq> None"
  shows "\<exists>t. String_js (object_property kvs key) = Some t"
proof (cases "map_of kvs key")
  case None
  then show ?thesis by (simp add: object_property_def)
next
  case (Some v)
  then have "v \<in> snd ` set kvs" by (force dest: map_of_SomeD)
  with assms Some show ?thesis by (auto simp: object_property_def)
qed

lemma dataframe_of_declared_shape_renders:
  assumes tag: "map_of obj (js ''_type'') = Some (JStr (js ''dataframe''))"
    and data: "map_of obj (js ''data'') = Some (JArr rows)"
    and columns: "map_of obj (js ''columns'') = Some (JArr cols)"
    and index: "map_of obj (js ''index'') = Some (JArr labels)"
    and shape: "map_of obj (js ''shape'') = Some (JArr [JNum r, JNum c])"
    and dtypes: "map_of obj (js ''dtypes'') = Some (JObj dts)"
    and cols_ok: "\<forall>col\<in>set cols. \<exists>s t. col = JStr s \<and> map_of dts s = Some (JStr t)"
    and rows_ok: "\<forall>row\<in>set rows. \<exists>kvs. row = JObj kvs \<and> (\<forall>v\<in>snd ` set kvs. to_string v \<noteq> None)"
    and labels_ok: "\<forall>v\<in>set labels. to_string v \<noteq> None"
  shows "\<exists>view. renderResult (JObj obj) = Inr (DataFrameElement view)"
proof -
  have d0: "decimal 0 = js ''0''" and d1: "decimal (Suc 0) = js ''1''" by code_simp+
  have s0: "field_property obj ''shape'' (js ''0'') = Some (Value (JNum r))"
    using shape by (simp add: field_property_def index_of_key_def d0 d1 upt_rec)
  have "js ''0'' \<noteq> js ''1''" by (simp add: js_def)
  then have s1: "field_property obj ''shape'' (js ''1'') = Some (Value (JNum c))"
    using shape by (simp add: field_property_def index_of_key_def d0 d1 upt_rec)
  have hd: "\<exists>h. headerCell obj col = Some h" if "col \<in> set cols" for col
    using that cols_ok dtypes
    by (fastforce simp: headerCell_def field_property_def object_property_def)
  have cell: "\<exists>t. dataCell row col = Some t" if "row \<in> set rows" "col \<in> set cols" for row col
  proof -
    from that rows_ok obtain kvs where row: "row = JObj kvs"
      and ok: "\<forall>v\<in>snd ` set kvs. to_string v \<noteq> None" by blast
    from that cols_ok obtain s where col: "col = JStr s" by blast
    from String_js_object_property [OF ok, of s] show ?thesis
      by (simp add: dataCell_def row col)
  qed
  have row: "\<exists>tr. dataRow obj cols i row = Some tr" if "row \<in> set rows" for i row
  proof -
    obtain x where x: "field_property obj ''index'' (decimal i) = Some x"
      using index by (simp add: field_property_def)
    then have "get_property (JArr labels) (decimal i) = Some x"
      using index by (simp add: field_property_def)
    from String_js_array_element [OF labels_ok this] obtain t where t: "String_js x = Some t" ..
    from those_map_Some [of cols "dataCell row"] cell [OF that]
    obtain cells where "those (map (dataCell row) cols) = Some cells" by blast
    with x t show ?thesis by (simp add: dataRow_def)
  qed
  from those_map_Some [of cols "headerCell obj"] hd
  obtain header where h: "those (map (headerCell obj) cols) = Some header" by blast
  have "\<exists>y. (\<lambda>(rowIdx, row). dataRow obj cols rowIdx row) p = Some y"
    if "p \<in> set (enumerate 0 (take 10 rows))" for p
  proof -
    obtain i row' where p: "p = (i, row')" by (cases p)
    with that have "row' \<in> set rows" by (auto simp: in_set_enumerate_eq)
    from row [OF this, of i] p show ?thesis by simp
  qed
  from those_map_Some [of "enumerate 0 (take 10 rows)"
      "\<lambda>(rowIdx, row). dataRow obj cols rowIdx row", OF this]
  obtain dataRows where b:
    "those (map (\<lambda>(rowIdx, row). dataRow obj cols rowIdx row) (enumerate 0 (take 10 rows)))
       = Some dataRows" by blast
  have "\<exists>view. dataFrameTable obj rows cols = Some view"
    by (simp add: dataFrameTable_def Let_def s0 s1 h b)
  then show ?thesis
    using tag data columns by (auto simp: rendered_def renderDataFrame_def)
qed

text \<open>
  Claim C4, as the code has it. For a result tagged \<open>dataframe\<close> whose \<open>data\<close> is an
  array of more than ten rows and whose render does not throw, the table body has eleven
  rows: the first ten are the data rows of rows \<open>0\<close> to \<open>9\<close>, and the last is the
  summary row, spanning the index column and all data columns, whose text is
  \<open>... and N more rows\<close> with \<open>N\<close> the number of rows beyond ten. The header has one
  cell per column, holding the label and \<open>dtypes[col]\<close>: a column with a declared dtype
  shows that dtype.
\<close>
theorem dataframe_more_than_ten_rows:
  assumes tag: "map_of obj (js ''_type'') = Some (JStr (js ''dataframe''))"
    and data: "map_of obj (js ''data'') = Some (JArr rows)"
    and big: "10 < length rows"
    and renders: "renderResult (JObj obj) = Inr el"
  shows "\<exists>view cols.
           el = DataFrameElement view \<and>
           map_of obj (js ''columns'') = Some (JArr cols) \<and>
           length (dfv_body view) = 11 \<and>
           (\<forall>i<10. dataRow obj cols i (rows ! i) = Some (dfv_body view ! i)) \<and>
           dfv_body view ! 10 =
             SummaryRow (length cols + 1)
               [Lit (js ''... and ''), Num (of_nat (length rows - 10)), Lit (js '' more rows'')] \<and>
           map (headerCell obj) cols = map Some (dfv_header view) \<and>
           (\<forall>c dtypes t. JStr c \<in> set cols \<longrightarrow>
              map_of obj (js ''dtypes'') = Some (JObj dtypes) \<longrightarrow> map_of dtypes c = Some t \<longrightarrow>
              (JStr c, Value t) \<in> set (dfv_header view))"
proof -
  from renders tag obtain view where rv: "renderDataFrame obj = Some view"
    and el: "el = DataFrameElement view"
    by (auto simp: rendered_eq_Inr)
  from renderDataFrame_Some [OF rv data] obtain cols dataRows where
    c: "map_of obj (js ''columns'') = Some (JArr cols)"
    and h: "map (headerCell obj) cols = map Some (dfv_header view)"
    and m: "map (\<lambda>(rowIdx, row). dataRow obj cols rowIdx row) (enumerate 0 (take 10 rows))
              = map Some dataRows"
    and b0: "dfv_body view = dataRows @
              (if 10 < length rows
               then [SummaryRow (length cols + 1)
                       [Lit (js ''... and ''), Num (of_nat (length rows) - 10),
                        Lit (js '' more rows'')]]
               else [])"
    by blast
  have n: "(of_nat (length rows) :: rat) - 10 = of_nat (length rows - 10)"
    using big by (simp add: of_nat_diff)
  have b: "dfv_body view = dataRows @
              [SummaryRow (length cols + 1)
                 [Lit (js ''... and ''), Num (of_nat (length rows - 10)), Lit (js '' more rows'')]]"
    using b0 big by (simp only: n if_True)
  have l: "length dataRows = 10" using dataframe_rows(1) [OF m] big by simp
  have len: "length (dfv_body view) = 11" by (simp add: b l)
  have rows: "\<forall>i<10. dataRow obj cols i (rows ! i) = Some (dfv_body view ! i)"
  proof (intro allI impI)
    fix i :: nat
    assume i: "i < 10"
    with big have "i < length rows" by simp
    from dataframe_rows(2) [OF m i this] i l
    show "dataRow obj cols i (rows ! i) = Some (dfv_body view ! i)"
      by (simp add: b nth_append)
  qed
  have last: "dfv_body view ! 10 =
             SummaryRow (length cols + 1)
               [Lit (js ''... and ''), Num (of_nat (length rows - 10)), Lit (js '' more rows'')]"
    using l by (simp add: b nth_append)
  have dt: "\<forall>c dtypes t. JStr c \<in> set cols \<longrightarrow>
              map_of obj (js ''dtypes'') = Some (JObj dtypes) \<longrightarrow> map_of dtypes c = Some t \<longrightarrow>
              (JStr c, Value t) \<in> set (dfv_header view)"
  proof (intro allI impI)
    fix c dtypes t
    assume cin: "JStr c \<in> set cols" and d: "map_of obj (js ''dtypes'') = Some (JObj dtypes)"
      and t: "map_of dtypes c = Some t"
    from cin have "headerCell obj (JStr c) \<in> set (map (headerCell obj) cols)" by simp
    then obtain hc where hc: "hc \<in> set (dfv_header view)" "headerCell obj (JStr c) = Some hc"
      unfolding h by auto
    from headerCell_declared_dtype [OF d t hc(2)] hc(1)
    show "(JStr c, Value t) \<in> set (dfv_header view)" by simp
  qed
  from el c len rows last h dt show ?thesis by blast
qed

text \<open>C4 on a frame of fifteen rows: the summary row reads \<open>... and 5 more rows\<close>.\<close>
theorem dataframe_more_than_ten_rows_witness:
  "\<exists>view.
     renderResult (JObj
       [(js ''_type'', JStr (js ''dataframe'')),
        (js ''data'', JArr (replicate 15 (JObj [(js ''score'', JNum (js ''95''))]))),
        (js ''columns'', JArr [JStr (js ''score'')]),
        (js ''index'', JArr (map (\<lambda>i. JNum (decimal i)) [0..<15])),
        (js ''shape'', JArr [JNum (js ''15''), JNum (js ''1'')]),
        (js ''dtypes'', JObj [(js ''score'', JStr (js ''int64''))])])
       = Inr (DataFrameElement view) \<and>
     length (dfv_body view) = 11 \<and>
     dfv_body view ! 9 =
       DataRow (StringOf (Value (JNum (js ''9'')))) [StringOf (Value (JNum (js ''95'')))] \<and>
     dfv_body view ! 10 =
       SummaryRow 2 [Lit (js ''... and ''), Num 5, Lit (js '' more rows'')] \<and>
     dfv_header view = [(JStr (js ''score''), Value (JStr (js ''int64'')))]"
proof -
  define rows where "rows = replicate 15 (JObj [(js ''score'', JNum (js ''95''))])"
  define obj where "obj =
       [(js ''_type'', JStr (js ''dataframe'')),
        (js ''data'', JArr rows),
        (js ''columns'', JArr [JStr (js ''score'')]),
        (js ''index'', JArr (map (\<lambda>i. JNum (decimal i)) [0..<15])),
        (js ''shape'', JArr [JNum (js ''15''), JNum (js ''1'')]),
        (js ''dtypes'', JObj [(js ''score'', JStr (js ''int64''))])]"
  have tag: "map_of obj (js ''_type'') = Some (JStr (js ''dataframe''))"
    unfolding obj_def by (simp add: js_def)
  have data: "map_of obj (js ''data'') = Some (JArr rows)"
    unfolding obj_def by (simp add: js_def)
  have cols: "map_of obj (js ''columns'') = Some (JArr [JStr (js ''score'')])"
    unfolding obj_def by (simp add: js_def)
  have big: "10 < length rows" by (simp add: rows_def)
  have "case renderResult (JObj obj) of Inl _ \<Rightarrow> False | Inr _ \<Rightarrow> True"
    unfolding obj_def rows_def by code_simp
  then obtain el where renders: "renderResult (JObj obj) = Inr el"
    by (cases "renderResult (JObj obj)") auto
  from dataframe_more_than_ten_rows [OF tag data big renders] cols
  obtain view where el: "el = DataFrameElement view"
    and l: "length (dfv_body view) = 11"
    and r: "\<forall>i<10. dataRow obj [JStr (js ''score'')] i (rows ! i) = Some (dfv_body view ! i)"
    and s: "dfv_body view ! 10 =
              SummaryRow (length [JStr (js ''score'')] + 1)
                [Lit (js ''... and ''), Num (of_nat (length rows - 10)), Lit (js '' more rows'')]"
    and h: "map (headerCell obj) [JStr (js ''score'')] = map Some (dfv_header view)"
    by auto
  have "dataRow obj [JStr (js ''score'')] 9 (JObj [(js ''score'', JNum (js ''95''))]) =
          Some (DataRow (StringOf (Value (JNum (js ''9'')))) [StringOf (Value (JNum (js ''95'')))])"
    unfolding obj_def rows_def by code_simp
  with r [rule_format, of 9]
  have r9: "dfv_body view ! 9 =
       DataRow (StringOf (Value (JNum (js ''9'')))) [StringOf (Value (JNum (js ''95'')))]"
    by (simp add: rows_def)
  have s': "dfv_body view ! 10 = SummaryRow 2 [Lit (js ''... and ''), Num 5, Lit (js '' more rows'')]"
    using s by (simp add: rows_def)
  have "headerCell obj (JStr (js ''score'')) = Some (JStr (js ''score''), Value (JStr (js ''int64'')))"
    unfolding obj_def rows_def by code_simp
  with h have h': "dfv_header view = [(JStr (js ''score''), Value (JStr (js ''int64'')))]"
    by (cases "dfv_header view") auto
  from renders el l r9 s' h' show ?thesis unfolding obj_def rows_def by blast
qed

text \<open>
  Claim C4 as stated fails on results for which the render throws. The first result below
  has the \<open>DataFrameResult\<close> shape and eleven rows; its cells are objects with an own
  \<open>toString\<close> property, on which \<open>String(row[col])\<close> throws. The second has eleven
  rows and no \<open>columns\<close>.
\<close>
theorem dataframe_more_than_ten_rows_counterexample:
  "renderResult (JObj
       [(js ''_type'', JStr (js ''dataframe'')),
        (js ''data'', JArr (replicate 11
           (JObj [(js ''payload'', JObj [(js ''toString'', JStr (js ''x''))])]))),
        (js ''columns'', JArr [JStr (js ''payload'')]),
        (js ''index'', JArr (map (\<lambda>i. JNum (decimal i)) [0..<11])),
        (js ''shape'', JArr [JNum (js ''11''), JNum (js ''1'')]),
        (js ''dtypes'', JObj [(js ''payload'', JStr (js ''object''))])])
     = Inl RenderThrows \<and>
   renderResult (JObj
       [(js ''_type'', JStr (js ''dataframe'')),
        (js ''data'', JArr (replicate 11 (JObj [(js ''score'', JNum (js ''95''))])))])
     = Inl RenderThrows"
  by code_simp

text \<open>
  Claim C10, as the code has it. For a result tagged \<open>dataframe\<close> whose \<open>data\<close> is an
  array of at most ten rows and whose render does not throw, the table body has exactly
  one data row per row of \<open>data\<close>, in order, and no summary row.
\<close>
theorem dataframe_at_most_ten_rows:
  assumes tag: "map_of obj (js ''_type'') = Some (JStr (js ''dataframe''))"
    and data: "map_of obj (js ''data'') = Some (JArr rows)"
    and small: "length rows \<le> 10"
    and renders: "renderResult (JObj obj) = Inr el"
  shows "\<exists>view cols.
           el = DataFrameElement view \<and>
           map_of obj (js ''columns'') = Some (JArr cols) \<and>
           length (dfv_body view) = length rows \<and>
           (\<forall>i<length rows. dataRow obj cols i (rows ! i) = Some (dfv_body view ! i)) \<and>
           (\<forall>n ts. SummaryRow n ts \<notin> set (dfv_body view))"
proof -
  from renders tag obtain view where rv: "renderDataFrame obj = Some view"
    and el: "el = DataFrameElement view"
    by (auto simp: rendered_eq_Inr)
  from renderDataFrame_Some [OF rv data] obtain cols dataRows where
    c: "map_of obj (js ''columns'') = Some (JArr cols)"
    and m: "map (\<lambda>(rowIdx, row). dataRow obj cols rowIdx row) (enumerate 0 (take 10 rows))
              = map Some dataRows"
    and b0: "dfv_body view = dataRows @
              (if 10 < length rows
               then [SummaryRow (length cols + 1)
                       [Lit (js ''... and ''), Num (of_nat (length rows) - 10),
                        Lit (js '' more rows'')]]
               else [])"
    by blast
  have b: "dfv_body view = dataRows" using b0 small by simp
  have l: "length dataRows = length rows" using dataframe_rows(1) [OF m] small by simp
  have len: "length (dfv_body view) = length rows" by (simp add: b l)
  have rows: "\<forall>i<length rows. dataRow obj cols i (rows ! i) = Some (dfv_body view ! i)"
  proof (intro allI impI)
    fix i
    assume i: "i < length rows"
    with small have "i < 10" by simp
    from dataframe_rows(2) [OF m this i]
    show "dataRow obj cols i (rows ! i) = Some (dfv_body view ! i)" by (simp add: b)
  qed
  have nosum: "\<forall>n ts. SummaryRow n ts \<notin> set (dfv_body view)"
  proof (intro allI notI)
    fix n ts
    assume "SummaryRow n ts \<in> set (dfv_body view)"
    then obtain i where i: "i < length rows" "dfv_body view ! i = SummaryRow n ts"
      unfolding len [symmetric] by (auto simp: in_set_conv_nth)
    with rows have "dataRow obj cols i (rows ! i) = Some (SummaryRow n ts)" by simp
    then show False
      by (auto simp: dataRow_def bind_eq_Some_conv)
  qed
  from el c len rows nosum show ?thesis by blast
qed

text \<open>C10 on a frame of exactly ten rows.\<close>
theorem dataframe_at_most_ten_rows_witness:
  "\<exists>view.
     renderResult (JObj
       [(js ''_type'', JStr (js ''dataframe'')),
        (js ''data'', JArr (replicate 10 (JObj [(js ''score'', JNum (js ''95''))]))),
        (js ''columns'', JArr [JStr (js ''score'')]),
        (js ''index'', JArr (map (\<lambda>i. JNum (decimal i)) [0..<10])),
        (js ''shape'', JArr [JNum (js ''10''), JNum (js ''1'')]),
        (js ''dtypes'', JObj [(js ''score'', JStr (js ''int64''))])])
       = Inr (DataFrameElement view) \<and>
     length (dfv_body view) = 10 \<and>
     dfv_body view ! 9 =
       DataRow (StringOf (Value (JNum (js ''9'')))) [StringOf (Value (JNum (js ''95'')))] \<and>
     SummaryRow 2 [Lit (js ''... and ''), Num 0, Lit (js '' more rows'')] \<notin> set (dfv_body view)"
proof -
  define rows where "rows = replicate 10 (JObj [(js ''score'', JNum (js ''95''))])"
  define obj where "obj =
       [(js ''_type'', JStr (js ''dataframe'')),
        (js ''data'', JArr rows),
        (js ''columns'', JArr [JStr (js ''score'')]),
        (js ''index'', JArr (map (\<lambda>i. JNum (decimal i)) [0..<10])),
        (js ''shape'', JArr [JNum (js ''10''), JNum (js ''1'')]),
        (js ''dtypes'', JObj [(js ''score'', JStr (js ''int64''))])]"
  have tag: "map_of obj (js ''_type'') = Some (JStr (js ''dataframe''))"
    unfolding obj_def by (simp add: js_def)
  have data: "map_of obj (js ''data'') = Some (JArr rows)"
    unfolding obj_def by (simp add: js_def)
  have cols: "map_of obj (js ''columns'') = Some (JArr [JStr (js ''score'')])"
    unfolding obj_def by (simp add: js_def)
  have small: "length rows \<le> 10" by (simp add: rows_def)
  have "case renderResult (JObj obj) of Inl _ \<Rightarrow> False | Inr _ \<Rightarrow> True"
    unfolding obj_def rows_def by code_simp
  then obtain el where renders: "renderResult (JObj obj) = Inr el"
    by (cases "renderResult (JObj obj)") auto
  from dataframe_at_most_ten_rows [OF tag data small renders] cols
  obtain view where el: "el = DataFrameElement view"
    and l: "length (dfv_body view) = length rows"
    and r: "\<forall>i<length rows. dataRow obj [JStr (js ''score'')] i (rows ! i) = Some (dfv_body view ! i)"
    and s: "\<forall>n ts. SummaryRow n ts \<notin> set (dfv_body view)"
    by auto
  have l': "length (dfv_body view) = 10" using l by (simp add: rows_def)
  have "dataRow obj [JStr (js ''score'')] 9 (JObj [(js ''score'', JNum (js ''95''))]) =
          Some (DataRow (StringOf (Value (JNum (js ''9'')))) [StringOf (Value (JNum (js ''95'')))])"
    unfolding obj_def rows_def by code_simp
  with r [rule_format, of 9]
  have r9: "dfv_body view ! 9 =
       DataRow (StringOf (Value (JNum (js ''9'')))) [StringOf (Value (JNum (js ''95'')))]"
    by (simp add: rows_def)
  from renders el l' r9 s show ?thesis unfolding obj_def rows_def by blast
qed

text \<open>
  Claim C10 as stated fails on results for which the render throws: a frame of one row
  whose cell cannot be converted to text, and a frame of one row without \<open>columns\<close>.
\<close>
theorem dataframe_at_most_ten_rows_counterexample:
  "renderResult (JObj
       [(js ''_type'', JStr (js ''dataframe'')),
        (js ''data'', JArr [JObj [(js ''payload'', JObj [(js ''toString'', JStr (js ''x''))])]]),
        (js ''columns'', JArr [JStr (js ''payload'')]),
        (js ''index'', JArr [JNum (js ''0'')]),
        (js ''shape'', JArr [JNum (js ''1''), JNum (js ''1'')]),
        (js ''dtypes'', JObj [(js ''payload'', JStr (js ''object''))])])
     = Inl RenderThrows \<and>
   renderResult (JObj
       [(js ''_type'', JStr (js ''dataframe'')),
        (js ''data'', JArr [JObj [(js ''score'', JNum (js ''95''))]])])
     = Inl RenderThrows"
  by code_simp

text \<open>
  The renderers take what the tagged object holds, whatever the interfaces declare: an
  image without \<open>format\<close>, a series without \<open>index\<close>, an \<open>unserializable\<close> whose
  value is a number and a frame with numeric labels and dtypes all render; an object as a
  child does not.
\<close>

lemma unchecked_cast_examples:
  "renderResult (JObj [(js ''_type'', JStr (js ''image'')),
                       (js ''data'', JStr (js ''data:image/png;base64,AA'')),
                       (js ''size'', JArr [JNum (js ''4''), JNum (js ''3'')]),
                       (js ''mode'', JStr (js ''RGB''))])
     = Inr (ImageElement \<lparr> iv_size = (Value (JNum (js ''4'')), Value (JNum (js ''3''))),
                             iv_mode = Value (JStr (js ''RGB'')),
                             iv_src = Value (JStr (js ''data:image/png;base64,AA'')) \<rparr>)"
  "renderResult (JObj [(js ''_type'', JStr (js ''series'')),
                       (js ''data'', JObj [(js ''a'', JNum (js ''1''))]),
                       (js ''name'', JStr (js ''s'')),
                       (js ''dtype'', JStr (js ''int64''))])
     = Inr (SeriesElement \<lparr> sv_name = js ''(s)'', sv_dtype = Value (JStr (js ''int64'')),
                              sv_items = [(StringOf (Value (JStr (js ''a''))),
                                           StringOf (Value (JNum (js ''1''))))],
                              sv_more = None \<rparr>)"
  "renderResult (JObj [(js ''_type'', JStr (js ''unserializable'')),
                       (js ''value'', JNum (js ''42'')), (js ''type'', JStr (js ''int''))])
     = Inr (UnserializableElement \<lparr> uv_type = Value (JStr (js ''int'')),
                                      uv_value = Value (JNum (js ''42'')) \<rparr>)"
  "renderResult (JObj [(js ''_type'', JStr (js ''dataframe'')),
                       (js ''data'', JArr [JObj [(js ''0'', JNum (js ''7''))]]),
                       (js ''columns'', JArr [JNum (js ''0'')]),
                       (js ''index'', JArr [JStr (js ''r'')]),
                       (js ''shape'', JArr [JNum (js ''1''), JNum (js ''1'')]),
                       (js ''dtypes'', JObj [(js ''0'', JNum (js ''64''))])])
     = Inr (DataFrameElement \<lparr> dfv_shape = (Value (JNum (js ''1'')), Value (JNum (js ''1''))),
                                 dfv_header = [(JNum (js ''0''), Value (JNum (js ''64'')))],
                                 dfv_body = [DataRow (StringOf (Value (JStr (js ''r''))))
                                               [StringOf (Value (JNum (js ''7'')))]] \<rparr>)"
  "renderResult (JObj [(js ''_type'', JStr (js ''unserializable'')),
                       (js ''value'', JObj [(js ''a'', JNum (js ''1''))]),
                       (js ''type'', JStr (js ''dict''))])
     = Inl RenderThrows"
  by code_simp+

text \<open>
  Claim C5. A value whose \<open>_type\<close> is none of the four recognised tags, or that has no
  \<open>_type\<close> at all (an object without the key, an array, a primitive, \<open>null\<close>), gets
  the default rendering, and \<open>renderResult\<close> returns normally.
\<close>
theorem renderResult_fallback:
  assumes "type_tag v \<notin> {Some (JStr (js ''dataframe'')), Some (JStr (js ''series'')),
                           Some (JStr (js ''image'')), Some (JStr (js ''unserializable''))}"
  shows "renderResult v = Inr (defaultJsonRendering v)"
  using assms by (cases v) (auto split: option.splits)

text \<open>C5 on the tag \<open>mystery\<close>, on an untagged object and on a number.\<close>
theorem renderResult_fallback_witness:
  "renderResult (JObj [(js ''_type'', JStr (js ''mystery'')), (js ''a'', JNum (js ''1''))]) =
     Inr (PreElement (JsonStringify
       (JObj [(js ''_type'', JStr (js ''mystery'')), (js ''a'', JNum (js ''1''))]))) \<and>
   renderResult (JObj [(js ''a'', JNum (js ''1''))]) =
     Inr (PreElement (JsonStringify (JObj [(js ''a'', JNum (js ''1''))]))) \<and>
   renderResult (JNum (js ''42'')) = Inr (PreElement (StringOf (Value (JNum (js ''42'')))))"
proof -
  have a: "type_tag (JObj [(js ''_type'', JStr (js ''mystery'')), (js ''a'', JNum (js ''1''))])
             \<notin> {Some (JStr (js ''dataframe'')), Some (JStr (js ''series'')),
                  Some (JStr (js ''image'')), Some (JStr (js ''unserializable''))}"
    by (simp add: js_def)
  have b: "type_tag (JObj [(js ''a'', JNum (js ''1''))])
             \<notin> {Some (JStr (js ''dataframe'')), Some (JStr (js ''series'')),
                  Some (JStr (js ''image'')), Some (JStr (js ''unserializable''))}"
    by (simp add: js_def)
  have c: "type_tag (JNum (js ''42''))
             \<notin> {Some (JStr (js ''dataframe'')), Some (JStr (js ''series'')),
                  Some (JStr (js ''image'')), Some (JStr (js ''unserializable''))}"
    by simp
  show ?thesis
    using renderResult_fallback [OF a] renderResult_fallback [OF b] renderResult_fallback [OF c]
    by (simp add: defaultJsonRendering_def)
qed

text \<open>On the page, such a result gets a result panel with the default rendering.\<close>

lemma fallback_result_panel:
  assumes "type_tag v \<notin> {Some (JStr (js ''dataframe'')), Some (JStr (js ''series'')),
                           Some (JStr (js ''image'')), Some (JStr (js ''unserializable''))}"
    and "result r = Some v" and "v \<noteq> JNull"
  shows "\<exists>ps. responsePanels l m r = Inr ps \<and> ResultPanel m (defaultJsonRendering v) \<in> set ps"
proof -
  have "renderResult v = Inr (defaultJsonRendering v)"
    using assms(1) by (cases v) (auto split: option.splits)
  with assms(2,3) show ?thesis by (simp add: responsePanels_def Let_def)
qed

section \<open>Properties of the output panels\<close>

text \<open>
  Claim C6, as the code has it. When the error is a non-empty string, stdout is non-empty
  and the render of the result (if there is one) does not throw, the block has the error
  panel first, with the error text as it came, and has the stdout panel with the stdout
  text.
\<close>
theorem error_and_stdout_panels:
  assumes "error r = Some e" and "e \<noteq> []" and "stdout r \<noteq> []" and "resultRenders r"
  shows "\<exists>ps. responsePanels l m r = Inr ps \<and> hd ps = ErrorPanel e \<and>
           ErrorPanel e \<in> set ps \<and> StdoutPanel (StdoutText (stdout r)) \<in> set ps"
  using assms
  by (auto simp: responsePanels_def resultRenders_def Let_def split: option.splits sum.splits)

text \<open>
  C6 on a response with an error, partial output and a result tagged \<open>unserializable\<close>
  whose value is a number.
\<close>
theorem error_and_stdout_panels_witness:
  "resultRenders
     \<lparr> stdout = js ''step 1'',
       result = Some (JObj [(js ''_type'', JStr (js ''unserializable'')),
                            (js ''value'', JNum (js ''42'')), (js ''type'', JStr (js ''int''))]),
       error = Some (js ''boom''), visualizations = None \<rparr> \<and>
   (\<exists>ps. responsePanels False Function
            \<lparr> stdout = js ''step 1'',
              result = Some (JObj [(js ''_type'', JStr (js ''unserializable'')),
                                   (js ''value'', JNum (js ''42'')),
                                   (js ''type'', JStr (js ''int''))]),
              error = Some (js ''boom''), visualizations = None \<rparr> = Inr ps \<and>
         hd ps = ErrorPanel (js ''boom'') \<and> ErrorPanel (js ''boom'') \<in> set ps \<and>
         StdoutPanel (StdoutText (js ''step 1'')) \<in> set ps)"
proof -
  let ?r = "\<lparr> stdout = js ''step 1'',
       result = Some (JObj [(js ''_type'', JStr (js ''unserializable'')),
                            (js ''value'', JNum (js ''42'')), (js ''type'', JStr (js ''int''))]),
       error = Some (js ''boom''), visualizations = None \<rparr>"
  have a: "error ?r = Some (js ''boom'')" by simp
  have b: "js ''boom'' \<noteq> []" by (simp add: js_def)
  have c: "stdout ?r \<noteq> []" by (simp add: js_def)
  have d: "resultRenders ?r" by code_simp
  show ?thesis
    using d error_and_stdout_panels [OF a b c d, of False Function] by simp
qed

text \<open>The three panels of that response.\<close>

lemma error_stdout_result_example:
  "responsePanels False Function
     \<lparr> stdout = js ''step 1'',
       result = Some (JObj [(js ''_type'', JStr (js ''unserializable'')),
                            (js ''value'', JNum (js ''42'')), (js ''type'', JStr (js ''int''))]),
       error = Some (js ''boom''), visualizations = None \<rparr>
     = Inr [ErrorPanel (js ''boom''), StdoutPanel (StdoutText (js ''step 1'')),
            ResultPanel Function (UnserializableElement
              \<lparr> uv_type = Value (JStr (js ''int'')), uv_value = Value (JNum (js ''42'')) \<rparr>)]"
  by code_simp

text \<open>
  Claim C6 as stated fails in two ways. When the error field is present and holds the
  empty string, the guard \<open>apiResponse.error &&\<close> renders nothing for it, and the block
  has the stdout panel only. When the result is tagged \<open>dataframe\<close> and has no
  \<open>data\<close>, \<open>renderDataFrame\<close> throws while the block is built, and no panel is
  rendered.
\<close>
theorem error_and_stdout_panels_counterexample:
  "responsePanels False Function
     \<lparr> stdout = js ''step 1'', result = None, error = Some [], visualizations = None \<rparr>
     = Inr [StdoutPanel (StdoutText (js ''step 1''))] \<and>
   responsePanels False Function
     \<lparr> stdout = js ''step 1'', result = Some (JObj [(js ''_type'', JStr (js ''dataframe''))]),
       error = Some (js ''boom''), visualizations = None \<rparr>
     = Inl RenderThrows"
  by code_simp

text \<open>
  Claim C7 on the response \<open>{"stdout": "", "result": {"a": 1}}\<close>: the block has the
  result panel and nothing else. No stdout panel is rendered, with or without the
  \<open>No standard output.\<close> text.
\<close>
theorem empty_stdout_no_stdout_panel:
  "responsePanels False Function
     \<lparr> stdout = [], result = Some (JObj [(js ''a'', JNum (js ''1''))]), error = None,
       visualizations = None \<rparr>
     = Inr [ResultPanel Function (PreElement (JsonStringify (JObj [(js ''a'', JNum (js ''1''))])))]"
  by (simp add: responsePanels_def hasError_def hasVisualizations_def hasResult_def
      defaultJsonRendering_def js_def)

text \<open>
  In general the block has a stdout panel exactly when stdout is non-empty, and then the
  panel shows the text: the alternative \<open>No standard output.\<close> of the inner
  expression is never rendered.
\<close>

lemma stdout_panel_iff:
  assumes "responsePanels l m r = Inr ps"
  shows "StdoutPanel b \<in> set ps \<longleftrightarrow> stdout r \<noteq> [] \<and> b = StdoutText (stdout r)"
  using assms
  by (auto simp: responsePanels_def Let_def split: option.splits sum.splits if_splits)

lemma no_standard_output_unreachable:
  assumes "responsePanels l m r = Inr ps"
  shows "StdoutPanel NoStandardOutput \<notin> set ps"
  using stdout_panel_iff [OF assms, of NoStandardOutput] by simp

section \<open>Properties of submission\<close>

text \<open>
  The current editor page. On a local-development host every request goes to the fixed
  local endpoint, and a submission of non-blank code that is not a cancellation issues
  exactly that request. On another host with the URL unset or empty, no request is issued
  and the configuration error is written to the console.
\<close>

lemma handleSubmit_local_endpoint:
  assumes "isLocalDev env" and "\<not> (isLoading st \<and> abortController st)"
    and "trim (userCode st) \<noteq> []"
  shows "snd (handleSubmit env st) =
           [ConsoleLog (UsingLocalApi (js ''http://localhost:5000/execute'')),
            Fetch (js ''http://localhost:5000/execute'')
                  (prepareCodeForExecution (userCode st) (executionMode st))]"
  using assms by (auto simp: handleSubmit_def Let_def)

lemma handleSubmit_local_requests:
  assumes "isLocalDev env" and "Fetch url body \<in> set (snd (handleSubmit env st))"
  shows "url = js ''http://localhost:5000/execute''"
  using assms by (auto simp: handleSubmit_def Let_def split: if_splits)

lemma handleSubmit_not_configured:
  assumes "\<not> isLocalDev env"
    and "NEXT_PUBLIC_FLASK_API_URL env = None \<or> NEXT_PUBLIC_FLASK_API_URL env = Some []"
    and "\<not> (isLoading st \<and> abortController st)" and "trim (userCode st) \<noteq> []"
  shows "handleSubmit env st =
           (st\<lparr> isLoading := False, apiResponse := None \<rparr>, [ConsoleError ApiUrlNotConfigured])"
  using assms by (auto simp: handleSubmit_def Let_def)

lemma handleSubmit_not_configured_sends_nothing:
  assumes "\<not> isLocalDev env"
    and "NEXT_PUBLIC_FLASK_API_URL env = None \<or> NEXT_PUBLIC_FLASK_API_URL env = Some []"
  shows "Fetch url body \<notin> set (snd (handleSubmit env st))"
  using assms by (auto simp: handleSubmit_def Let_def)

lemma handleSubmit_localhost_example:
  "handleSubmit
     \<lparr> hostname = Some (js ''localhost''), NEXT_PUBLIC_FLASK_API_URL = None \<rparr>
     \<lparr> userCode = js ''print(1)'', executionMode = Function, apiResponse = None,
       isLoading = False, abortController = False \<rparr>
   = (\<lparr> userCode = js ''print(1)'', executionMode = Function, apiResponse = None,
        isLoading = True, abortController = True \<rparr>,
      [ConsoleLog (UsingLocalApi (js ''http://localhost:5000/execute'')),
       Fetch (js ''http://localhost:5000/execute'') (js ''def main():\<newline>    print(1)\<newline>'')])"
  by code_simp

lemma handleSubmit_unset_url_example:
  "handleSubmit
     \<lparr> hostname = Some (js ''sandbox.example.com''), NEXT_PUBLIC_FLASK_API_URL = None \<rparr>
     \<lparr> userCode = js ''print(1)'', executionMode = Script, apiResponse = None,
       isLoading = False, abortController = False \<rparr>
   = (\<lparr> userCode = js ''print(1)'', executionMode = Script, apiResponse = None,
        isLoading = False, abortController = False \<rparr>,
      [ConsoleError ApiUrlNotConfigured])"
  by code_simp

text \<open>
  The earlier copy of the editor page. Its production URL is never empty, so the branch
  that records the configuration error cannot be taken, and on a host that is not local a
  submission of non-blank code always issues a request.
\<close>

lemma handleSubmit_001_never_not_configured:
  "networkError (fst (handleSubmit_001 env st)) \<noteq> Some ApiUrlNotConfigured"
  by (auto simp: handleSubmit_001_def Let_def js_def split: option.splits)

lemma handleSubmit_001_always_requests:
  assumes "\<not> isLocalDev env" and "\<not> (isLoading st \<and> abortController st)"
    and "trim (userCode st) \<noteq> []"
  shows "\<exists>url body. Fetch url body \<in> set (snd (handleSubmit_001 env st))"
  using assms by (auto simp: handleSubmit_001_def Let_def js_def split: option.splits)

text \<open>
  Claim C8 on the earlier copy of the editor page, on a host that is not a local one and
  with \<open>NEXT_PUBLIC_FLASK_API_URL\<close> unset: the request is issued, to
  \<open>undefined/execute\<close>, and no configuration error is recorded.
\<close>
theorem handleSubmit_001_unset_url_sends_request:
  "\<not> isLocalDev \<lparr> hostname = Some (js ''sandbox.example.com''), NEXT_PUBLIC_FLASK_API_URL = None \<rparr> \<and>
   handleSubmit_001
     \<lparr> hostname = Some (js ''sandbox.example.com''), NEXT_PUBLIC_FLASK_API_URL = None \<rparr>
     \<lparr> userCode = js ''print(1)'', executionMode = Script, apiResponse = None,
       isLoading = False, abortController = False, networkError = None \<rparr>
   = (\<lparr> userCode = js ''print(1)'', executionMode = Script, apiResponse = None,
        isLoading = True, abortController = True, networkError = None \<rparr>,
      [ConsoleLog (UsingProductionApi (js ''undefined/execute'')),
       Fetch (js ''undefined/execute'') (js ''print(1)'')])"
  by code_simp

end
